theory Spec2Isabelle
  imports
    Main
    "HOL-Library.AList"
    "HOL-Library.Multiset"
    "HOL-Library.Product_Lexorder"
    "HOL-Library.Word"
begin

section \<open>Data model (model.py)\<close>

text \<open>
  The pydantic classes of \<^verbatim>\<open>model.py\<close> become records. Record fields are global names in
  Isabelle, so every field carries a prefix naming its class: \<open>ce_\<close> CalendarEventBase,
  \<open>t_\<close> Task, \<open>tc_\<close> TaskCreate, \<open>tu_\<close> TaskUpdate, \<open>st_\<close> SubTask, \<open>stc_\<close> SubTaskCreate,
  \<open>stu_\<close> SubTaskUpdate, \<open>q_\<close> TaskListQuery. The leading underscore of the helpers of
  \<^verbatim>\<open>main.py\<close> is dropped.

  A \<^verbatim>\<open>UUID\<close> is its 128-bit value. An \<^verbatim>\<open>Optional[X]\<close> is an \<open>X option\<close>. An instance of a
  pydantic model and a \<^verbatim>\<open>datetime\<close> are always true in a Python test, so \<^verbatim>\<open>if not task\<close>
  and \<^verbatim>\<open>if due_from\<close> test for \<^verbatim>\<open>None\<close>; a string is true when it is not empty.
\<close>

text \<open>
  A \<^verbatim>\<open>datetime\<close> field of pydantic accepts a timestamp with a UTC offset (an aware
  datetime) and one without (a naive datetime). Both hold a wall-clock reading, counted
  here in microseconds since 1970-01-01T00:00:00; an aware one holds its offset from UTC
  as well, in microseconds. \<^verbatim>\<open>datetime.utcnow()\<close> returns a naive datetime.
\<close>

datatype datetime = Naive int | Aware int int

type_synonym uuid = "128 word"

datatype calendar_provider = google

datatype task_list_filter = filter_today | filter_upcoming | filter_done

record calendar_event_base =
  ce_provider :: calendar_provider
  ce_calendar_id :: string
  ce_summary :: string
  ce_start_datetime :: datetime
  ce_end_datetime :: datetime
  ce_description :: "string option"
  ce_timezone :: string
  ce_reminder_minutes_before :: "int option"

type_synonym calendar_event_create = calendar_event_base

record calendar_event = calendar_event_base +
  ce_event_id :: string

text \<open>
  Every pydantic model carries \<^verbatim>\<open>model_fields_set\<close>, the names of the fields the request
  body supplied: a field sent as \<^verbatim>\<open>null\<close> is in the set and holds \<^verbatim>\<open>None\<close>, an omitted
  field is not in the set and holds its default, \<^verbatim>\<open>None\<close>. The two update models keep it.
\<close>

record subtask_create =
  stc_title :: string
  stc_due_datetime :: "datetime option"
  stc_completed :: bool
  stc_add_to_calendar :: bool
  stc_event_duration_minutes :: int
  stc_calendar_id :: "string option"
  stc_calendar_event_id :: "string option"

record subtask_update =
  stu_title :: "string option"
  stu_due_datetime :: "datetime option"
  stu_completed :: "bool option"
  stu_add_to_calendar :: "bool option"
  stu_event_duration_minutes :: "int option"
  stu_calendar_id :: "string option"
  stu_calendar_event_id :: "string option"
  stu_model_fields_set :: "string set"

record subtask =
  st_title :: string
  st_due_datetime :: "datetime option"
  st_completed :: bool
  st_add_to_calendar :: bool
  st_event_duration_minutes :: int
  st_calendar_id :: "string option"
  st_calendar_event_id :: "string option"
  st_id :: uuid
  st_task_id :: uuid
  st_created_at :: datetime
  st_updated_at :: datetime

record task_create =
  tc_title :: string
  tc_note :: "string option"
  tc_due_datetime :: "datetime option"
  tc_completed :: bool
  tc_calendar_event :: "calendar_event_create option"

text \<open>
  The field \<^verbatim>\<open>calendar_event: Optional[CalendarEventCreate | CalendarEvent]\<close> of TaskUpdate
  holds an instance of one of two classes, neither a subclass of the other; the two
  \<^verbatim>\<open>isinstance\<close> tests of \<^verbatim>\<open>_apply_task_update\<close> are the two constructors.
\<close>

datatype calendar_event_patch =
  IsCalendarEventCreate calendar_event_create
| IsCalendarEvent calendar_event

record task_update =
  tu_title :: "string option"
  tu_note :: "string option"
  tu_due_datetime :: "datetime option"
  tu_completed :: "bool option"
  tu_calendar_event :: "calendar_event_patch option"
  tu_model_fields_set :: "string set"

record task =
  t_title :: string
  t_note :: "string option"
  t_due_datetime :: "datetime option"
  t_completed :: bool
  t_id :: uuid
  t_calendar_event :: "calendar_event option"
  t_subtasks :: "subtask list"

record task_list_query =
  q_list :: "task_list_filter option"
  q_q :: "string option"
  q_due_from :: "datetime option"
  q_due_to :: "datetime option"

text \<open>
  \<^verbatim>\<open>HTTPException(status_code, detail)\<close> is raised by the handlers and \<^verbatim>\<open>ValueError\<close> by the
  validator of TaskListQuery; \<^verbatim>\<open>TypeError\<close> and \<^verbatim>\<open>OverflowError\<close> are raised by the operations
  of \<^verbatim>\<open>datetime\<close>.
\<close>

datatype error =
  HTTPException nat string
| ValueError string
| TypeError string
| OverflowError string

fun is_not_found :: "error \<Rightarrow> bool" where
  "is_not_found (HTTPException code detail) = (code = 404)"
| "is_not_found (ValueError msg) = False"
| "is_not_found (TypeError msg) = False"
| "is_not_found (OverflowError msg) = False"

text \<open>
  Python orders two naive datetimes by their wall-clock readings and two aware datetimes
  by their instants, the reading less the offset; \<^verbatim>\<open>a < b\<close> and \<^verbatim>\<open>a > b\<close> on a naive and an
  aware datetime raise TypeError.
\<close>

fun is_aware :: "datetime \<Rightarrow> bool" where
  "is_aware (Naive wall) = False"
| "is_aware (Aware wall offset) = True"

fun wall_clock :: "datetime \<Rightarrow> int" where
  "wall_clock (Naive wall) = wall"
| "wall_clock (Aware wall offset) = wall"

fun instant :: "datetime \<Rightarrow> int" where
  "instant (Naive wall) = wall"
| "instant (Aware wall offset) = wall - offset"

definition datetime_lt :: "datetime \<Rightarrow> datetime \<Rightarrow> error + bool" where
  "datetime_lt a b =
     (if is_aware a = is_aware b then Inr (instant a < instant b)
      else Inl (TypeError ''cannot compare offset-naive and offset-aware datetimes''))"

definition datetime_gt :: "datetime \<Rightarrow> datetime \<Rightarrow> error + bool" where
  "datetime_gt a b = datetime_lt b a"

definition check_range :: "task_list_query \<Rightarrow> error + task_list_query" where
  "check_range self =
     (case (q_due_from self, q_due_to self) of
        (Some due_from, Some due_to) \<Rightarrow>
          (case datetime_gt due_from due_to of
             Inl e \<Rightarrow> Inl e
           | Inr True \<Rightarrow> Inl (ValueError ''due_from must be <= due_to'')
           | Inr False \<Rightarrow> Inr self)
      | _ \<Rightarrow> Inr self)"

section \<open>The in-memory store and its helpers (main.py)\<close>

text \<open>
  \<^verbatim>\<open>TASKS: Dict[UUID, Task]\<close> is an association list in insertion order, the order in which
  a Python dict is iterated: \<open>map_of\<close> is \<^verbatim>\<open>TASKS.get\<close>, \<open>AList.update\<close> is the assignment
  \<^verbatim>\<open>TASKS[k] = v\<close> (in place for a key that is there, at the end for a new one) and
  \<open>AList.delete\<close> is \<^verbatim>\<open>del TASKS[k]\<close>. A Task found in the store is mutated in place by the
  handlers; the model writes the changed task back under its key.
\<close>

type_synonym store = "(uuid \<times> task) list"

text \<open>
  What the Python runtime supplies and the repository does not hold: the lower-casing of
  a string; the UTC offset of the zone Asia/Colombo at an instant; and the UTC offset of
  the zone of the server at a wall-clock reading, by which \<^verbatim>\<open>astimezone\<close> resolves a naive
  datetime, \<open>None\<close> where the platform cannot resolve the reading and raises. Offsets are
  in microseconds.
\<close>

record platform =
  str_lower :: "string \<Rightarrow> string"
  colombo_utcoffset :: "int \<Rightarrow> int"
  server_utcoffset :: "int \<Rightarrow> int option"

text \<open>The canonical text of a UUID: 32 hexadecimal digits grouped 8-4-4-4-12.\<close>

definition hex_digit :: "nat \<Rightarrow> char" where
  "hex_digit d = ''0123456789abcdef'' ! (d mod 16)"

definition hex_digits :: "uuid \<Rightarrow> nat \<Rightarrow> nat \<Rightarrow> string" where
  "hex_digits u lo hi = map (\<lambda>i. hex_digit (unat (drop_bit (4 * i) u))) (rev [lo..<hi])"

definition uuid_str :: "uuid \<Rightarrow> string" where
  "uuid_str u = hex_digits u 24 32 @ ''-'' @ hex_digits u 20 24 @ ''-'' @ hex_digits u 16 20
                @ ''-'' @ hex_digits u 12 16 @ ''-'' @ hex_digits u 0 12"

text \<open>\<^verbatim>\<open>uuid4()\<close> is an input: the handlers take the value it returned as an argument.\<close>

definition fake_provider_event_id :: "uuid \<Rightarrow> string" where
  "fake_provider_event_id u = ''evt_'' @ uuid_str u"

definition microseconds_per_day :: int where
  "microseconds_per_day = 86400000000"

text \<open>
  The wall-clock readings a \<^verbatim>\<open>datetime\<close> can hold run from \<^verbatim>\<open>datetime.min\<close>,
  0001-01-01T00:00:00, to \<^verbatim>\<open>datetime.max\<close>, 9999-12-31T23:59:59.999999; arithmetic that leaves
  the range raises OverflowError.
\<close>

definition datetime_min :: int where
  "datetime_min = - 62135596800000000"

definition datetime_max :: int where
  "datetime_max = 253402300799999999"

definition in_range :: "int \<Rightarrow> error + int" where
  "in_range x =
     (if datetime_min \<le> x \<and> x \<le> datetime_max then Inr x
      else Inl (OverflowError ''date value out of range''))"

text \<open>
  \<^verbatim>\<open>dt.astimezone(ZoneInfo("Asia/Colombo"))\<close> first takes the offset of \<^verbatim>\<open>dt\<close> off its
  reading (its own offset, or the one of the zone of the server for a naive \<^verbatim>\<open>dt\<close>), then
  adds the offset of Asia/Colombo at that instant; the result is the reading in
  Asia/Colombo.
\<close>

definition to_utc :: "platform \<Rightarrow> datetime \<Rightarrow> error + int" where
  "to_utc pf dt =
     (case dt of
        Aware wall offset \<Rightarrow> in_range (wall - offset)
      | Naive wall \<Rightarrow>
          (case server_utcoffset pf wall of
             None \<Rightarrow> Inl (OverflowError ''timestamp out of range for platform time_t'')
           | Some offset \<Rightarrow> in_range (wall - offset)))"

definition astimezone_colombo :: "platform \<Rightarrow> datetime \<Rightarrow> error + int" where
  "astimezone_colombo pf dt =
     (case to_utc pf dt of
        Inl e \<Rightarrow> Inl e
      | Inr utc \<Rightarrow> in_range (utc + colombo_utcoffset pf utc))"

text \<open>\<^verbatim>\<open>.date()\<close> of a wall-clock reading, as a day number.\<close>

definition date_of :: "int \<Rightarrow> int" where
  "date_of wall = wall div microseconds_per_day"

text \<open>\<^verbatim>\<open>dt.astimezone(ZoneInfo("Asia/Colombo")).date()\<close>.\<close>

definition colombo_date :: "platform \<Rightarrow> datetime \<Rightarrow> error + int" where
  "colombo_date pf dt =
     (case astimezone_colombo pf dt of Inl e \<Rightarrow> Inl e | Inr local \<Rightarrow> Inr (date_of local))"

text \<open>
  \<^verbatim>\<open>datetime.now(ZoneInfo("Asia/Colombo")).date()\<close>. The clock is an input: the argument is
  the datetime that \<^verbatim>\<open>datetime.now(ZoneInfo("Asia/Colombo"))\<close> returned.
\<close>

definition colombo_today :: "datetime \<Rightarrow> int" where
  "colombo_today now = date_of (wall_clock now)"

definition get_task_or_404 :: "store \<Rightarrow> uuid \<Rightarrow> error + task" where
  "get_task_or_404 TASKS task_id =
     (case map_of TASKS task_id of
        None \<Rightarrow> Inl (HTTPException 404 ''Task not found'')
      | Some task \<Rightarrow> Inr task)"

fun find_subtask :: "subtask list \<Rightarrow> uuid \<Rightarrow> subtask option" where
  "find_subtask [] subtask_id = None"
| "find_subtask (st # sts) subtask_id =
     (if st_id st = subtask_id then Some st else find_subtask sts subtask_id)"

definition get_subtask_or_404 :: "task \<Rightarrow> uuid \<Rightarrow> error + subtask" where
  "get_subtask_or_404 task subtask_id =
     (case find_subtask (t_subtasks task) subtask_id of
        None \<Rightarrow> Inl (HTTPException 404 ''Subtask not found'')
      | Some st \<Rightarrow> Inr st)"

text \<open>
  \<^verbatim>\<open>CalendarEvent(**patch.calendar_event.model_dump(), event_id=...)\<close>: every field of the
  create request, and the event id.
\<close>

definition materialize :: "calendar_event_create \<Rightarrow> string \<Rightarrow> calendar_event" where
  "materialize c eid =
     \<lparr>ce_provider = ce_provider c, ce_calendar_id = ce_calendar_id c,
      ce_summary = ce_summary c, ce_start_datetime = ce_start_datetime c,
      ce_end_datetime = ce_end_datetime c, ce_description = ce_description c,
      ce_timezone = ce_timezone c, ce_reminder_minutes_before = ce_reminder_minutes_before c,
      ce_event_id = eid\<rparr>"

definition apply_task_update :: "task \<Rightarrow> task_update \<Rightarrow> uuid \<Rightarrow> task" where
  "apply_task_update task0 patch u =
     (let task1 = (case tu_title patch of None \<Rightarrow> task0 | Some v \<Rightarrow> task0\<lparr>t_title := v\<rparr>);
          task2 = (case tu_note patch of None \<Rightarrow> task1 | Some v \<Rightarrow> task1\<lparr>t_note := Some v\<rparr>);
          task3 = (case tu_due_datetime patch of None \<Rightarrow> task2
                   | Some v \<Rightarrow> task2\<lparr>t_due_datetime := Some v\<rparr>);
          task4 = (case tu_completed patch of None \<Rightarrow> task3
                   | Some v \<Rightarrow> task3\<lparr>t_completed := v\<rparr>)
      in if ''calendar_event'' \<in> tu_model_fields_set patch then
           (case tu_calendar_event patch of
              None \<Rightarrow> task4\<lparr>t_calendar_event := None\<rparr>
            | Some (IsCalendarEventCreate c) \<Rightarrow>
                task4\<lparr>t_calendar_event := Some (materialize c (fake_provider_event_id u))\<rparr>
            | Some (IsCalendarEvent e) \<Rightarrow> task4\<lparr>t_calendar_event := Some e\<rparr>)
         else task4)"

text \<open>Substring test \<^verbatim>\<open>a in b\<close> on strings.\<close>

fun str_in :: "string \<Rightarrow> string \<Rightarrow> bool" where
  "str_in a [] = (a = [])"
| "str_in a (c # cs) = (take (length a) (c # cs) = a \<or> str_in a cs)"

text \<open>
  \<^verbatim>\<open>_matches_query\<close> is only ever tested for truth: its result is the truth value of the
  Python expression (\<^verbatim>\<open>None\<close> and the empty string are false).
\<close>

definition matches_query :: "platform \<Rightarrow> task \<Rightarrow> string option \<Rightarrow> bool" where
  "matches_query pf task q =
     (case q of
        None \<Rightarrow> True
      | Some qs \<Rightarrow>
          if qs = [] then True
          else let ql = str_lower pf qs in
               str_in ql (str_lower pf (t_title task)) \<or>
               (case t_note task of
                  None \<Rightarrow> False
                | Some n \<Rightarrow> n \<noteq> [] \<and> str_in ql (str_lower pf n)))"

definition in_due_range :: "task \<Rightarrow> datetime option \<Rightarrow> datetime option \<Rightarrow> error + bool" where
  "in_due_range task due_from due_to =
     (case t_due_datetime task of
        None \<Rightarrow> Inr True
      | Some d \<Rightarrow>
          (case (case due_from of None \<Rightarrow> Inr False | Some f \<Rightarrow> datetime_lt d f) of
             Inl e \<Rightarrow> Inl e
           | Inr True \<Rightarrow> Inr False
           | Inr False \<Rightarrow>
               (case (case due_to of None \<Rightarrow> Inr False | Some t \<Rightarrow> datetime_gt d t) of
                  Inl e \<Rightarrow> Inl e
                | Inr True \<Rightarrow> Inr False
                | Inr False \<Rightarrow> Inr True)))"

text \<open>
  In \<^verbatim>\<open>_matches_list_filter\<close> the due date is converted first and the clock is read after;
  \<open>now\<close> is the reading this call takes if it reaches \<^verbatim>\<open>_colombo_today()\<close>.
\<close>

definition matches_list_filter ::
    "platform \<Rightarrow> datetime \<Rightarrow> task \<Rightarrow> task_list_filter option \<Rightarrow> error + bool" where
  "matches_list_filter pf now task list_filter =
     (case list_filter of
        None \<Rightarrow> Inr True
      | Some filter_done \<Rightarrow> Inr (t_completed task)
      | Some filter_today \<Rightarrow>
          (case t_due_datetime task of
             None \<Rightarrow> Inr False
           | Some d \<Rightarrow>
               (case colombo_date pf d of
                  Inl e \<Rightarrow> Inl e
                | Inr day \<Rightarrow> Inr (day = colombo_today now)))
      | Some filter_upcoming \<Rightarrow>
          (case t_due_datetime task of
             None \<Rightarrow> Inr False
           | Some d \<Rightarrow>
               (case colombo_date pf d of
                  Inl e \<Rightarrow> Inl e
                | Inr day \<Rightarrow> Inr (day > colombo_today now))))"

section \<open>Handlers (main.py)\<close>

text \<open>
  A handler takes the store and returns the store it leaves behind together with its
  result: \<open>Inl\<close> the exception it raised, \<open>Inr\<close> the value it returned. The values of
  \<^verbatim>\<open>uuid4()\<close> and \<^verbatim>\<open>datetime.utcnow()\<close> read by a handler are arguments, one for each call
  in the source.
\<close>

text \<open>
  The loop of \<^verbatim>\<open>list_tasks\<close>, with its three \<^verbatim>\<open>continue\<close> tests in order; an exception raised
  by a test ends the loop. \<^verbatim>\<open>_matches_list_filter\<close> reads the clock by itself, so every task
  meets a reading of its own: \<open>clock i\<close> is the datetime that
  \<^verbatim>\<open>datetime.now(ZoneInfo("Asia/Colombo"))\<close> returns while the task at position \<open>i\<close> of the
  store is examined.
\<close>

fun scan_tasks ::
    "platform \<Rightarrow> (nat \<Rightarrow> datetime) \<Rightarrow> nat \<Rightarrow> task_list_query \<Rightarrow> task list \<Rightarrow>
     error + task list" where
  "scan_tasks pf clock i query [] = Inr []"
| "scan_tasks pf clock i query (task # rest) =
     (if \<not> matches_query pf task (q_q query) then scan_tasks pf clock (Suc i) query rest
      else
        (case in_due_range task (q_due_from query) (q_due_to query) of
           Inl e \<Rightarrow> Inl e
         | Inr False \<Rightarrow> scan_tasks pf clock (Suc i) query rest
         | Inr True \<Rightarrow>
             (case matches_list_filter pf (clock i) task (q_list query) of
                Inl e \<Rightarrow> Inl e
              | Inr False \<Rightarrow> scan_tasks pf clock (Suc i) query rest
              | Inr True \<Rightarrow>
                  (case scan_tasks pf clock (Suc i) query rest of
                     Inl e \<Rightarrow> Inl e
                   | Inr items \<Rightarrow> Inr (task # items)))))"

text \<open>
  The sort key \<^verbatim>\<open>(t.due_datetime is None, t.due_datetime or datetime.max)\<close>. Tuples compare
  lexicographically, \<open>False < True\<close>, so the second components are compared only when
  both tasks have a due date or neither has: two due dates as \<open>datetime_lt\<close> does, by their
  instants or with a TypeError, and \<^verbatim>\<open>datetime.max\<close> with itself. \<^verbatim>\<open>list.sort\<close> and \<^verbatim>\<open>sorted\<close>
  are stable, as \<open>sort_key\<close> is. A sort that ends has compared every two items that end
  next to each other, and among due dates of both kinds two of different kind end next to
  each other: the sort raises exactly when the list holds due dates of both kinds.
\<close>

definition task_sort_key :: "task \<Rightarrow> bool \<times> int" where
  "task_sort_key t =
     (t_due_datetime t = None,
      case t_due_datetime t of None \<Rightarrow> datetime_max | Some d \<Rightarrow> instant d)"

definition same_kind :: "datetime option \<Rightarrow> datetime option \<Rightarrow> bool" where
  "same_kind a b =
     (case (a, b) of (Some x, Some y) \<Rightarrow> is_aware x = is_aware y | _ \<Rightarrow> True)"

definition sort_tasks :: "task list \<Rightarrow> error + task list" where
  "sort_tasks items =
     (if list_all (\<lambda>a. list_all (\<lambda>b. same_kind (t_due_datetime a) (t_due_datetime b)) items)
           items
      then Inr (sort_key task_sort_key items)
      else Inl (TypeError ''cannot compare offset-naive and offset-aware datetimes''))"

text \<open>
  The key \<^verbatim>\<open>(st.due_datetime is None, st.due_datetime or datetime.max, st.created_at)\<close> of
  \<^verbatim>\<open>list_subtasks\<close>: the creation times are compared when the first two components are
  equal.
\<close>

definition subtask_sort_key :: "subtask \<Rightarrow> bool \<times> int \<times> int" where
  "subtask_sort_key st =
     (st_due_datetime st = None,
      case st_due_datetime st of None \<Rightarrow> datetime_max | Some d \<Rightarrow> instant d,
      instant (st_created_at st))"

definition subtasks_comparable :: "subtask \<Rightarrow> subtask \<Rightarrow> bool" where
  "subtasks_comparable a b =
     (same_kind (st_due_datetime a) (st_due_datetime b)
      \<and> (if fst (subtask_sort_key a) = fst (subtask_sort_key b)
             \<and> fst (snd (subtask_sort_key a)) = fst (snd (subtask_sort_key b))
          then is_aware (st_created_at a) = is_aware (st_created_at b)
          else True))"

definition sort_subtasks :: "subtask list \<Rightarrow> error + subtask list" where
  "sort_subtasks sts =
     (if list_all (\<lambda>a. list_all (\<lambda>b. subtasks_comparable a b) sts) sts
      then Inr (sort_key subtask_sort_key sts)
      else Inl (TypeError ''cannot compare offset-naive and offset-aware datetimes''))"

definition list_tasks ::
    "platform \<Rightarrow> (nat \<Rightarrow> datetime) \<Rightarrow> store \<Rightarrow> task_list_filter option \<Rightarrow> string option \<Rightarrow>
     datetime option \<Rightarrow> datetime option \<Rightarrow> store \<times> (error + task list)" where
  "list_tasks pf clock TASKS list_filter q due_from due_to =
     (case check_range \<lparr>q_list = list_filter, q_q = q,
                        q_due_from = due_from, q_due_to = due_to\<rparr> of
        Inl e \<Rightarrow> (TASKS, Inl e)
      | Inr query \<Rightarrow>
          (case scan_tasks pf clock 0 query (map snd TASKS) of
             Inl e \<Rightarrow> (TASKS, Inl e)
           | Inr items \<Rightarrow> (TASKS, sort_tasks items)))"

definition create_task ::
    "store \<Rightarrow> task_create \<Rightarrow> uuid \<Rightarrow> uuid \<Rightarrow> store \<times> (error + task)" where
  "create_task TASKS payload u_event u_id =
     (let event = (case tc_calendar_event payload of
                     None \<Rightarrow> None
                   | Some c \<Rightarrow> Some (materialize c (fake_provider_event_id u_event)));
          task = \<lparr>t_title = tc_title payload, t_note = tc_note payload,
                  t_due_datetime = tc_due_datetime payload,
                  t_completed = tc_completed payload, t_id = u_id,
                  t_calendar_event = event, t_subtasks = []\<rparr>
      in (AList.update (t_id task) task TASKS, Inr task))"

definition get_task :: "store \<Rightarrow> uuid \<Rightarrow> store \<times> (error + task)" where
  "get_task TASKS task_id = (TASKS, get_task_or_404 TASKS task_id)"

definition update_task ::
    "store \<Rightarrow> uuid \<Rightarrow> task_update \<Rightarrow> uuid \<Rightarrow> store \<times> (error + task)" where
  "update_task TASKS task_id patch u_event =
     (case get_task_or_404 TASKS task_id of
        Inl e \<Rightarrow> (TASKS, Inl e)
      | Inr task \<Rightarrow>
          let task' = apply_task_update task patch u_event
          in (AList.update task_id task' TASKS, Inr task'))"

definition delete_task :: "store \<Rightarrow> uuid \<Rightarrow> store \<times> (error + unit)" where
  "delete_task TASKS task_id =
     (case get_task_or_404 TASKS task_id of
        Inl e \<Rightarrow> (TASKS, Inl e)
      | Inr task \<Rightarrow> (AList.delete task_id TASKS, Inr ()))"

definition complete_task :: "store \<Rightarrow> uuid \<Rightarrow> store \<times> (error + task)" where
  "complete_task TASKS task_id =
     (case get_task_or_404 TASKS task_id of
        Inl e \<Rightarrow> (TASKS, Inl e)
      | Inr task \<Rightarrow>
          let task' = task\<lparr>t_completed := True\<rparr>
          in (AList.update task_id task' TASKS, Inr task'))"

definition undo_task :: "store \<Rightarrow> uuid \<Rightarrow> store \<times> (error + task)" where
  "undo_task TASKS task_id =
     (case get_task_or_404 TASKS task_id of
        Inl e \<Rightarrow> (TASKS, Inl e)
      | Inr task \<Rightarrow>
          let task' = task\<lparr>t_completed := False\<rparr>
          in (AList.update task_id task' TASKS, Inr task'))"

definition list_subtasks :: "store \<Rightarrow> uuid \<Rightarrow> store \<times> (error + subtask list)" where
  "list_subtasks TASKS task_id =
     (case get_task_or_404 TASKS task_id of
        Inl e \<Rightarrow> (TASKS, Inl e)
      | Inr task \<Rightarrow> (TASKS, sort_subtasks (t_subtasks task)))"

text \<open>The truth value of an \<^verbatim>\<open>Optional[str]\<close>: false for \<^verbatim>\<open>None\<close> and for the empty string.\<close>

definition truthy :: "string option \<Rightarrow> bool" where
  "truthy s = (case s of None \<Rightarrow> False | Some v \<Rightarrow> v \<noteq> [])"

definition create_subtask ::
    "store \<Rightarrow> uuid \<Rightarrow> subtask_create \<Rightarrow> uuid \<Rightarrow> datetime \<Rightarrow> datetime \<Rightarrow> uuid \<Rightarrow>
     store \<times> (error + subtask)" where
  "create_subtask TASKS task_id payload u_id now_created now_updated u_event =
     (case get_task_or_404 TASKS task_id of
        Inl e \<Rightarrow> (TASKS, Inl e)
      | Inr task \<Rightarrow>
          let subtask0 =
                \<lparr>st_title = stc_title payload, st_due_datetime = stc_due_datetime payload,
                 st_completed = stc_completed payload,
                 st_add_to_calendar = stc_add_to_calendar payload,
                 st_event_duration_minutes = stc_event_duration_minutes payload,
                 st_calendar_id = stc_calendar_id payload,
                 st_calendar_event_id = stc_calendar_event_id payload,
                 st_id = u_id, st_task_id = t_id task,
                 st_created_at = now_created, st_updated_at = now_updated\<rparr>;
              subtask =
                (if st_add_to_calendar subtask0 \<and> st_calendar_event_id subtask0 = None
                    \<and> truthy (st_calendar_id subtask0)
                 then subtask0\<lparr>st_calendar_event_id := Some (fake_provider_event_id u_event)\<rparr>
                 else subtask0);
              task' = task\<lparr>t_subtasks := t_subtasks task @ [subtask]\<rparr>
          in (AList.update task_id task' TASKS, Inr subtask))"

text \<open>
  The subtask found by \<^verbatim>\<open>_get_subtask_or_404\<close> is the first of the list with that id; it is
  mutated in place, so the changed subtask takes its position.
\<close>

fun put_subtask :: "subtask list \<Rightarrow> uuid \<Rightarrow> subtask \<Rightarrow> subtask list" where
  "put_subtask [] subtask_id st' = []"
| "put_subtask (st # sts) subtask_id st' =
     (if st_id st = subtask_id then st' # sts else st # put_subtask sts subtask_id st')"

text \<open>
  The body of \<^verbatim>\<open>update_subtask\<close> after the two lookups: the seven tests of the patch, the
  assignment of an event id, the refresh of \<^verbatim>\<open>updated_at\<close>.
\<close>

definition apply_subtask_update :: "subtask \<Rightarrow> subtask_update \<Rightarrow> uuid \<Rightarrow> datetime \<Rightarrow> subtask" where
  "apply_subtask_update s0 patch u_event now =
     (let s1 = (case stu_title patch of None \<Rightarrow> s0 | Some v \<Rightarrow> s0\<lparr>st_title := v\<rparr>);
          s2 = (case stu_due_datetime patch of None \<Rightarrow> s1
                | Some v \<Rightarrow> s1\<lparr>st_due_datetime := Some v\<rparr>);
          s3 = (case stu_completed patch of None \<Rightarrow> s2 | Some v \<Rightarrow> s2\<lparr>st_completed := v\<rparr>);
          s4 = (case stu_add_to_calendar patch of None \<Rightarrow> s3
                | Some v \<Rightarrow> s3\<lparr>st_add_to_calendar := v\<rparr>);
          s5 = (case stu_event_duration_minutes patch of None \<Rightarrow> s4
                | Some v \<Rightarrow> s4\<lparr>st_event_duration_minutes := v\<rparr>);
          s6 = (case stu_calendar_id patch of None \<Rightarrow> s5
                | Some v \<Rightarrow> s5\<lparr>st_calendar_id := Some v\<rparr>);
          s7 = (case stu_calendar_event_id patch of None \<Rightarrow> s6
                | Some v \<Rightarrow> s6\<lparr>st_calendar_event_id := Some v\<rparr>);
          s8 = (if st_add_to_calendar s7 \<and> truthy (st_calendar_id s7)
                   \<and> \<not> truthy (st_calendar_event_id s7)
                then s7\<lparr>st_calendar_event_id := Some (fake_provider_event_id u_event)\<rparr>
                else s7)
      in s8\<lparr>st_updated_at := now\<rparr>)"

definition update_subtask ::
    "store \<Rightarrow> uuid \<Rightarrow> uuid \<Rightarrow> subtask_update \<Rightarrow> uuid \<Rightarrow> datetime \<Rightarrow>
     store \<times> (error + subtask)" where
  "update_subtask TASKS task_id subtask_id patch u_event now =
     (case get_task_or_404 TASKS task_id of
        Inl e \<Rightarrow> (TASKS, Inl e)
      | Inr task \<Rightarrow>
          (case get_subtask_or_404 task subtask_id of
             Inl e \<Rightarrow> (TASKS, Inl e)
           | Inr subtask \<Rightarrow>
               let subtask' = apply_subtask_update subtask patch u_event now;
                   task' = task\<lparr>t_subtasks := put_subtask (t_subtasks task) subtask_id subtask'\<rparr>
               in (AList.update task_id task' TASKS, Inr subtask')))"

definition delete_subtask :: "store \<Rightarrow> uuid \<Rightarrow> uuid \<Rightarrow> store \<times> (error + unit)" where
  "delete_subtask TASKS task_id subtask_id =
     (case get_task_or_404 TASKS task_id of
        Inl e \<Rightarrow> (TASKS, Inl e)
      | Inr task \<Rightarrow>
          (case get_subtask_or_404 task subtask_id of
             Inl e \<Rightarrow> (TASKS, Inl e)
           | Inr subtask \<Rightarrow>
               let task' = task\<lparr>t_subtasks :=
                                  filter (\<lambda>st. st_id st \<noteq> st_id subtask) (t_subtasks task)\<rparr>
               in (AList.update task_id task' TASKS, Inr ())))"

definition complete_subtask ::
    "store \<Rightarrow> uuid \<Rightarrow> uuid \<Rightarrow> datetime \<Rightarrow> store \<times> (error + subtask)" where
  "complete_subtask TASKS task_id subtask_id now =
     (case get_task_or_404 TASKS task_id of
        Inl e \<Rightarrow> (TASKS, Inl e)
      | Inr task \<Rightarrow>
          (case get_subtask_or_404 task subtask_id of
             Inl e \<Rightarrow> (TASKS, Inl e)
           | Inr subtask \<Rightarrow>
               let subtask' = subtask\<lparr>st_completed := True, st_updated_at := now\<rparr>;
                   task' = task\<lparr>t_subtasks := put_subtask (t_subtasks task) subtask_id subtask'\<rparr>
               in (AList.update task_id task' TASKS, Inr subtask')))"

definition undo_subtask ::
    "store \<Rightarrow> uuid \<Rightarrow> uuid \<Rightarrow> datetime \<Rightarrow> store \<times> (error + subtask)" where
  "undo_subtask TASKS task_id subtask_id now =
     (case get_task_or_404 TASKS task_id of
        Inl e \<Rightarrow> (TASKS, Inl e)
      | Inr task \<Rightarrow>
          (case get_subtask_or_404 task subtask_id of
             Inl e \<Rightarrow> (TASKS, Inl e)
           | Inr subtask \<Rightarrow>
               let subtask' = subtask\<lparr>st_completed := False, st_updated_at := now\<rparr>;
                   task' = task\<lparr>t_subtasks := put_subtask (t_subtasks task) subtask_id subtask'\<rparr>
               in (AList.update task_id task' TASKS, Inr subtask')))"

section \<open>Requests and reachable stores\<close>

text \<open>
  One constructor for each route of the application, with the arguments of its handler.
  The store of a running service is what a sequence of requests leaves of the empty
  dictionary \<^verbatim>\<open>TASKS = {}\<close>.
\<close>

datatype request =
  ListTasks "nat \<Rightarrow> datetime" "task_list_filter option" "string option" "datetime option" "datetime option"
| CreateTask task_create uuid uuid
| GetTask uuid
| UpdateTask uuid task_update uuid
| DeleteTask uuid
| CompleteTask uuid
| UndoTask uuid
| ListSubtasks uuid
| CreateSubtask uuid subtask_create uuid datetime datetime uuid
| UpdateSubtask uuid uuid subtask_update uuid datetime
| DeleteSubtask uuid uuid
| CompleteSubtask uuid uuid datetime
| UndoSubtask uuid uuid datetime

text \<open>What a handler leaves: the store, and the exception if it raised one.\<close>

fun outcome :: "store \<times> (error + 'a) \<Rightarrow> store \<times> error option" where
  "outcome (S, Inl e) = (S, Some e)"
| "outcome (S, Inr v) = (S, None)"

fun respond :: "platform \<Rightarrow> store \<Rightarrow> request \<Rightarrow> store \<times> error option" where
  "respond pf S (ListTasks clock lf q df dt) = outcome (list_tasks pf clock S lf q df dt)"
| "respond pf S (CreateTask payload ue ui) = outcome (create_task S payload ue ui)"
| "respond pf S (GetTask tid) = outcome (get_task S tid)"
| "respond pf S (UpdateTask tid patch ue) = outcome (update_task S tid patch ue)"
| "respond pf S (DeleteTask tid) = outcome (delete_task S tid)"
| "respond pf S (CompleteTask tid) = outcome (complete_task S tid)"
| "respond pf S (UndoTask tid) = outcome (undo_task S tid)"
| "respond pf S (ListSubtasks tid) = outcome (list_subtasks S tid)"
| "respond pf S (CreateSubtask tid payload ui n1 n2 ue) =
     outcome (create_subtask S tid payload ui n1 n2 ue)"
| "respond pf S (UpdateSubtask tid sid patch ue now) =
     outcome (update_subtask S tid sid patch ue now)"
| "respond pf S (DeleteSubtask tid sid) = outcome (delete_subtask S tid sid)"
| "respond pf S (CompleteSubtask tid sid now) = outcome (complete_subtask S tid sid now)"
| "respond pf S (UndoSubtask tid sid now) = outcome (undo_subtask S tid sid now)"

definition handle :: "platform \<Rightarrow> store \<Rightarrow> request \<Rightarrow> store" where
  "handle pf S r = fst (respond pf S r)"

definition serve :: "platform \<Rightarrow> store \<Rightarrow> request list \<Rightarrow> store" where
  "serve pf S reqs = foldl (handle pf) S reqs"

text \<open>The path parameters \<^verbatim>\<open>{task_id}\<close> and \<^verbatim>\<open>{subtask_id}\<close> of a route.\<close>

fun path_task_id :: "request \<Rightarrow> uuid option" where
  "path_task_id (ListTasks clock lf q df dt) = None"
| "path_task_id (CreateTask payload ue ui) = None"
| "path_task_id (GetTask tid) = Some tid"
| "path_task_id (UpdateTask tid patch ue) = Some tid"
| "path_task_id (DeleteTask tid) = Some tid"
| "path_task_id (CompleteTask tid) = Some tid"
| "path_task_id (UndoTask tid) = Some tid"
| "path_task_id (ListSubtasks tid) = Some tid"
| "path_task_id (CreateSubtask tid payload ui n1 n2 ue) = Some tid"
| "path_task_id (UpdateSubtask tid sid patch ue now) = Some tid"
| "path_task_id (DeleteSubtask tid sid) = Some tid"
| "path_task_id (CompleteSubtask tid sid now) = Some tid"
| "path_task_id (UndoSubtask tid sid now) = Some tid"

fun path_subtask_id :: "request \<Rightarrow> uuid option" where
  "path_subtask_id (UpdateSubtask tid sid patch ue now) = Some sid"
| "path_subtask_id (DeleteSubtask tid sid) = Some sid"
| "path_subtask_id (CompleteSubtask tid sid now) = Some sid"
| "path_subtask_id (UndoSubtask tid sid now) = Some sid"
| "path_subtask_id r = None"

text \<open>The id a \<^verbatim>\<open>create_task\<close> request stores its task under.\<close>

fun created_task_id :: "request \<Rightarrow> uuid option" where
  "created_task_id (CreateTask payload ue ui) = Some ui"
| "created_task_id r = None"

text \<open>
  The ownership invariant of the data model: a task is stored under its own id, and every
  subtask of its list refers back to it.
\<close>

definition store_inv :: "store \<Rightarrow> bool" where
  "store_inv S =
     (\<forall>(k, t) \<in> set S. t_id t = k \<and> (\<forall>st \<in> set (t_subtasks t). st_task_id st = t_id t))"

text \<open>
  The order the specification asks of a listing: ascending due date, no due date last.
  One due date is not after another when the two are of one kind and the instant of the
  first is not after the instant of the second.
\<close>

fun due_le :: "datetime option \<Rightarrow> datetime option \<Rightarrow> bool" where
  "due_le (Some a) (Some b) = (is_aware a = is_aware b \<and> instant a \<le> instant b)"
| "due_le (Some a) None = True"
| "due_le None (Some b) = False"
| "due_le None None = True"

text \<open>
  The three predicates of a listing, all of which a listed task satisfies; \<open>now\<close> is the
  clock reading the task meets.
\<close>

definition listed :: "platform \<Rightarrow> datetime \<Rightarrow> task_list_filter option \<Rightarrow> string option \<Rightarrow>
    datetime option \<Rightarrow> datetime option \<Rightarrow> task \<Rightarrow> bool" where
  "listed pf now lf q df dt task =
     (matches_query pf task q \<and> in_due_range task df dt = Inr True
      \<and> matches_list_filter pf now task lf = Inr True)"

text \<open>The tasks of a store with their positions, and the ones a listing keeps.\<close>

definition kept_tasks :: "platform \<Rightarrow> (nat \<Rightarrow> datetime) \<Rightarrow> task_list_filter option \<Rightarrow>
    string option \<Rightarrow> datetime option \<Rightarrow> datetime option \<Rightarrow> store \<Rightarrow> task list" where
  "kept_tasks pf clock lf q df dt S =
     map snd (filter (\<lambda>(i, task). listed pf (clock i) lf q df dt task)
                (enumerate 0 (map snd S)))"

text \<open>The datetimes a listing compares: the bounds supplied and the due dates stored.\<close>

fun supplied :: "'a option \<Rightarrow> 'a list" where
  "supplied None = []"
| "supplied (Some x) = [x]"

definition compared_datetimes :: "store \<Rightarrow> datetime option \<Rightarrow> datetime option \<Rightarrow> datetime list" where
  "compared_datetimes S df dt =
     supplied df @ supplied dt @ concat (map (\<lambda>(k, task). supplied (t_due_datetime task)) S)"

section \<open>Sample data\<close>

definition sample_platform :: platform where
  "sample_platform =
     \<lparr>str_lower = (\<lambda>s. s), colombo_utcoffset = (\<lambda>t. 19800000000),
      server_utcoffset = (\<lambda>t. Some 0)\<rparr>"

definition sample_event :: calendar_event where
  "sample_event =
     \<lparr>ce_provider = google, ce_calendar_id = ''cal1'', ce_summary = ''pay rent'',
      ce_start_datetime = Aware 1704067200000000 0,
      ce_end_datetime = Aware 1704070800000000 0,
      ce_description = None, ce_timezone = ''Asia/Colombo'',
      ce_reminder_minutes_before = Some 10, ce_event_id = ''evt_0''\<rparr>"

definition sample_event_create :: calendar_event_create where
  "sample_event_create =
     \<lparr>ce_provider = google, ce_calendar_id = ''cal2'', ce_summary = ''call bank'',
      ce_start_datetime = Aware 1709251200000000 0,
      ce_end_datetime = Aware 1709254800000000 0,
      ce_description = Some ''loan'', ce_timezone = ''Asia/Colombo'',
      ce_reminder_minutes_before = None\<rparr>"

definition sample_subtask :: subtask where
  "sample_subtask =
     \<lparr>st_title = ''find the bill'', st_due_datetime = Some (Aware 1704067200000000 0),
      st_completed = False, st_add_to_calendar = True, st_event_duration_minutes = 60,
      st_calendar_id = Some ''cal1'', st_calendar_event_id = Some ''evt_1'',
      st_id = 11, st_task_id = 1,
      st_created_at = Naive 1700000000000000, st_updated_at = Naive 1700000000000000\<rparr>"

definition plain_subtask :: subtask where
  "plain_subtask =
     \<lparr>st_title = ''buy stamps'', st_due_datetime = None,
      st_completed = False, st_add_to_calendar = False, st_event_duration_minutes = 60,
      st_calendar_id = None, st_calendar_event_id = None,
      st_id = 12, st_task_id = 1,
      st_created_at = Naive 1700000001000000, st_updated_at = Naive 1700000001000000\<rparr>"

definition sample_task :: task where
  "sample_task =
     \<lparr>t_title = ''pay rent'', t_note = Some ''before noon'',
      t_due_datetime = Some (Aware 1709251200000000 0), t_completed = False, t_id = 1,
      t_calendar_event = Some sample_event, t_subtasks = [sample_subtask, plain_subtask]\<rparr>"

definition undated_task :: task where
  "undated_task =
     \<lparr>t_title = ''read'', t_note = None, t_due_datetime = None, t_completed = True,
      t_id = 2, t_calendar_event = None, t_subtasks = []\<rparr>"

definition early_task :: task where
  "early_task =
     \<lparr>t_title = ''renew pass'', t_note = None,
      t_due_datetime = Some (Aware 1704067200000000 0),
      t_completed = False, t_id = 3, t_calendar_event = None, t_subtasks = []\<rparr>"

text \<open>Tasks due 2024-03-01, never, and 2024-01-01, in the order they were created.\<close>

definition sample_store :: store where
  "sample_store = [(1, sample_task), (2, undated_task), (3, early_task)]"

definition empty_task_update :: task_update where
  "empty_task_update =
     \<lparr>tu_title = None, tu_note = None, tu_due_datetime = None, tu_completed = None,
      tu_calendar_event = None, tu_model_fields_set = {}\<rparr>"

definition empty_subtask_update :: subtask_update where
  "empty_subtask_update =
     \<lparr>stu_title = None, stu_due_datetime = None, stu_completed = None,
      stu_add_to_calendar = None, stu_event_duration_minutes = None,
      stu_calendar_id = None, stu_calendar_event_id = None, stu_model_fields_set = {}\<rparr>"

text \<open>A task due 9999-12-31T20:00:00 UTC, and the clock at 2024-01-01T05:30 in Asia/Colombo.\<close>

definition far_task :: task where
  "far_task =
     \<lparr>t_title = ''retire'', t_note = None,
      t_due_datetime = Some (Aware 253402286400000000 0),
      t_completed = False, t_id = 4, t_calendar_event = None, t_subtasks = []\<rparr>"

definition sample_now :: datetime where
  "sample_now = Aware 1704087000000000 19800000000"

text \<open>A clock that stands still.\<close>

definition sample_clock :: "nat \<Rightarrow> datetime" where
  "sample_clock i = sample_now"

definition sample_task_create :: task_create where
  "sample_task_create =
     \<lparr>tc_title = ''call bank'', tc_note = None, tc_due_datetime = None,
      tc_completed = False, tc_calendar_event = Some sample_event_create\<rparr>"

definition sample_subtask_create :: subtask_create where
  "sample_subtask_create =
     \<lparr>stc_title = ''print form'', stc_due_datetime = None, stc_completed = False,
      stc_add_to_calendar = True, stc_event_duration_minutes = 60,
      stc_calendar_id = Some ''cal1'', stc_calendar_event_id = None\<rparr>"

section \<open>The text of a UUID determines it\<close>

lemma hex_digit_inj: "hex_digit a = hex_digit b \<Longrightarrow> a mod 16 = b mod 16"
proof -
  assume h: "hex_digit a = hex_digit b"
  have d: "distinct ''0123456789abcdef''" by simp
  have "a mod 16 < length ''0123456789abcdef''" "b mod 16 < length ''0123456789abcdef''"
    by simp_all
  with d h show ?thesis
    unfolding hex_digit_def by (simp only: nth_eq_iff_index_eq)
qed

lemma length_hex_digits [simp]: "length (hex_digits u lo hi) = hi - lo"
  by (simp add: hex_digits_def)

lemma hex_digits_eqD:
  assumes "hex_digits u lo hi = hex_digits v lo hi" "lo \<le> i" "i < hi"
  shows "unat (drop_bit (4 * i) u) mod 16 = unat (drop_bit (4 * i) v) mod 16"
proof -
  from assms(1) have "map (\<lambda>i. hex_digit (unat (drop_bit (4 * i) u))) [lo..<hi]
      = map (\<lambda>i. hex_digit (unat (drop_bit (4 * i) v))) [lo..<hi]"
    by (simp add: hex_digits_def rev_map [symmetric])
  with assms(2,3)
  have "hex_digit (unat (drop_bit (4 * i) u)) = hex_digit (unat (drop_bit (4 * i) v))"
    by (simp add: map_eq_conv)
  then show ?thesis by (rule hex_digit_inj)
qed

lemma nibble_bits:
  fixes u v :: uuid
  assumes "unat (drop_bit (4 * i) u) mod 16 = unat (drop_bit (4 * i) v) mod 16" "j < 4"
  shows "bit u (4 * i + j) = bit v (4 * i + j)"
proof -
  have "take_bit 4 (unat (drop_bit (4 * i) u)) = take_bit 4 (unat (drop_bit (4 * i) v))"
    using assms(1) by (simp add: take_bit_eq_mod)
  then have "bit (take_bit 4 (unat (drop_bit (4 * i) u))) j
      = bit (take_bit 4 (unat (drop_bit (4 * i) v))) j"
    by simp
  with assms(2) have "bit (unat (drop_bit (4 * i) u)) j = bit (unat (drop_bit (4 * i) v)) j"
    by (simp add: bit_take_bit_iff)
  then show ?thesis
    by (simp add: bit_unsigned_iff bit_drop_bit_eq add.commute possible_bit_def)
qed

lemma uuid_str_inj: "uuid_str u = uuid_str v \<Longrightarrow> u = v"
proof -
  assume h: "uuid_str u = uuid_str v"
  then have p: "hex_digits u 24 32 = hex_digits v 24 32" "hex_digits u 20 24 = hex_digits v 20 24"
    "hex_digits u 16 20 = hex_digits v 16 20" "hex_digits u 12 16 = hex_digits v 12 16"
    "hex_digits u 0 12 = hex_digits v 0 12"
    unfolding uuid_str_def by simp_all
  have n: "unat (drop_bit (4 * i) u) mod 16 = unat (drop_bit (4 * i) v) mod 16" if "i < 32" for i
  proof -
    from that consider "i < 12" | "12 \<le> i \<and> i < 16" | "16 \<le> i \<and> i < 20"
      | "20 \<le> i \<and> i < 24" | "24 \<le> i \<and> i < 32" by linarith
    then show ?thesis
      by cases (auto intro: hex_digits_eqD [OF p(1)] hex_digits_eqD [OF p(2)]
          hex_digits_eqD [OF p(3)] hex_digits_eqD [OF p(4)] hex_digits_eqD [OF p(5)])
  qed
  show "u = v"
  proof (rule bit_word_eqI)
    fix k assume "k < LENGTH(128)"
    then have k: "k div 4 < 32" "k mod 4 < 4" by simp_all
    have "bit u (4 * (k div 4) + k mod 4) = bit v (4 * (k div 4) + k mod 4)"
      by (rule nibble_bits [OF n [OF k(1)] k(2)])
    then show "bit u k = bit v k" by simp
  qed
qed

lemma fake_provider_event_id_inj:
  "(fake_provider_event_id u = fake_provider_event_id v) = (u = v)"
  by (auto simp: fake_provider_event_id_def dest: uuid_str_inj)

lemma fake_provider_event_id_nonempty: "fake_provider_event_id u \<noteq> []"
  by (simp add: fake_provider_event_id_def)

section \<open>Lookups and write-backs\<close>

lemma find_subtask_None_iff: "find_subtask sts sid = None \<longleftrightarrow> sid \<notin> st_id ` set sts"
  by (induction sts) auto

lemma find_subtask_SomeD: "find_subtask sts sid = Some st \<Longrightarrow> st \<in> set sts \<and> st_id st = sid"
  by (induction sts) (auto split: if_splits)

lemma find_put_subtask:
  "find_subtask sts sid = Some st \<Longrightarrow> st_id st' = sid \<Longrightarrow>
   find_subtask (put_subtask sts sid st') sid = Some st'"
  by (induction sts) (auto split: if_splits)

lemma put_put_subtask:
  "st_id a = sid \<Longrightarrow> put_subtask (put_subtask sts sid a) sid b = put_subtask sts sid b"
  by (induction sts) auto

lemma get_task_or_404_absent:
  "tid \<notin> fst ` set S \<Longrightarrow> get_task_or_404 S tid = Inl (HTTPException 404 ''Task not found'')"
  by (simp add: get_task_or_404_def map_of_eq_None_iff [symmetric])

lemma get_task_or_404_present:
  "map_of S tid = Some task \<Longrightarrow> get_task_or_404 S tid = Inr task"
  by (simp add: get_task_or_404_def)

lemma get_subtask_or_404_absent:
  "sid \<notin> st_id ` set (t_subtasks task) \<Longrightarrow>
   get_subtask_or_404 task sid = Inl (HTTPException 404 ''Subtask not found'')"
  by (simp add: get_subtask_or_404_def find_subtask_None_iff [symmetric])

lemma get_subtask_or_404_present:
  "find_subtask (t_subtasks task) sid = Some st \<Longrightarrow> get_subtask_or_404 task sid = Inr st"
  by (simp add: get_subtask_or_404_def)

lemma fst_outcome [simp]: "fst (outcome (S, x)) = S"
  by (cases x) simp_all

lemma snd_outcome [simp]: "snd (outcome (S, x)) = (case x of Inl e \<Rightarrow> Some e | Inr v \<Rightarrow> None)"
  by (cases x) simp_all

lemma fst_list_tasks [simp]: "fst (list_tasks pf clock S lf q df dt) = S"
  by (simp add: list_tasks_def split: sum.splits)

lemma fst_list_subtasks [simp]: "fst (list_subtasks S tid) = S"
  by (simp add: list_subtasks_def split: sum.splits)

lemmas handler_defs = get_task_def update_task_def delete_task_def complete_task_def
  undo_task_def list_subtasks_def create_subtask_def update_subtask_def delete_subtask_def
  complete_subtask_def undo_subtask_def


text \<open>The fields of a patched task and of a patched subtask.\<close>

lemma case_option_same [simp]: "(case x of None \<Rightarrow> a | Some v \<Rightarrow> a) = a"
  by (cases x) simp_all

lemma case_calendar_event_patch_same [simp]:
  "(case x of IsCalendarEventCreate c \<Rightarrow> a | IsCalendarEvent e \<Rightarrow> a) = a"
  by (cases x) simp_all

lemma st_id_apply_subtask_update [simp]:
  "st_id (apply_subtask_update st patch u now) = st_id st"
  by (simp add: apply_subtask_update_def Let_def option.case_distrib [of st_id]
      if_distrib [of st_id] cong: option.case_cong if_cong)

lemma st_task_id_apply_subtask_update [simp]:
  "st_task_id (apply_subtask_update st patch u now) = st_task_id st"
  by (simp add: apply_subtask_update_def Let_def option.case_distrib [of st_task_id]
      if_distrib [of st_task_id] cong: option.case_cong if_cong)

lemma t_id_apply_task_update [simp]: "t_id (apply_task_update task patch u) = t_id task"
  by (simp add: apply_task_update_def Let_def option.case_distrib [of t_id]
      calendar_event_patch.case_distrib [of t_id] if_distrib [of t_id]
      cong: option.case_cong if_cong calendar_event_patch.case_cong)

lemma t_subtasks_apply_task_update [simp]:
  "t_subtasks (apply_task_update task patch u) = t_subtasks task"
  by (simp add: apply_task_update_def Let_def option.case_distrib [of t_subtasks]
      calendar_event_patch.case_distrib [of t_subtasks] if_distrib [of t_subtasks]
      cong: option.case_cong if_cong calendar_event_patch.case_cong)

lemma apply_subtask_update_sel:
  "st_title (apply_subtask_update s p u now) =
     (case stu_title p of None \<Rightarrow> st_title s | Some v \<Rightarrow> v)"
  "st_due_datetime (apply_subtask_update s p u now) =
     (case stu_due_datetime p of None \<Rightarrow> st_due_datetime s | Some v \<Rightarrow> Some v)"
  "st_completed (apply_subtask_update s p u now) =
     (case stu_completed p of None \<Rightarrow> st_completed s | Some v \<Rightarrow> v)"
  "st_add_to_calendar (apply_subtask_update s p u now) =
     (case stu_add_to_calendar p of None \<Rightarrow> st_add_to_calendar s | Some v \<Rightarrow> v)"
  "st_event_duration_minutes (apply_subtask_update s p u now) =
     (case stu_event_duration_minutes p of None \<Rightarrow> st_event_duration_minutes s | Some v \<Rightarrow> v)"
  "st_calendar_id (apply_subtask_update s p u now) =
     (case stu_calendar_id p of None \<Rightarrow> st_calendar_id s | Some v \<Rightarrow> Some v)"
  "st_updated_at (apply_subtask_update s p u now) = now"
  "st_created_at (apply_subtask_update s p u now) = st_created_at s"
  by (simp_all add: apply_subtask_update_def Let_def
      option.case_distrib [of st_title] option.case_distrib [of st_due_datetime]
      option.case_distrib [of st_completed] option.case_distrib [of st_add_to_calendar]
      option.case_distrib [of st_event_duration_minutes] option.case_distrib [of st_calendar_id]
      option.case_distrib [of st_created_at]
      if_distrib [of st_title] if_distrib [of st_due_datetime]
      if_distrib [of st_completed] if_distrib [of st_add_to_calendar]
      if_distrib [of st_event_duration_minutes] if_distrib [of st_calendar_id]
      if_distrib [of st_created_at] cong: option.case_cong if_cong)

lemma apply_subtask_update_event_id:
  "st_calendar_event_id (apply_subtask_update s p u now) =
     (if (case stu_add_to_calendar p of None \<Rightarrow> st_add_to_calendar s | Some v \<Rightarrow> v)
         \<and> truthy (case stu_calendar_id p of None \<Rightarrow> st_calendar_id s | Some v \<Rightarrow> Some v)
         \<and> \<not> truthy (case stu_calendar_event_id p of None \<Rightarrow> st_calendar_event_id s
                       | Some v \<Rightarrow> Some v)
      then Some (fake_provider_event_id u)
      else (case stu_calendar_event_id p of None \<Rightarrow> st_calendar_event_id s
            | Some v \<Rightarrow> Some v))"
  by (simp add: apply_subtask_update_def Let_def
      option.case_distrib [of st_calendar_event_id] option.case_distrib [of st_calendar_id]
      option.case_distrib [of st_add_to_calendar]
      if_distrib [of st_calendar_event_id] cong: option.case_cong if_cong)


lemma update_task_present:
  "map_of S tid = Some task \<Longrightarrow>
   update_task S tid patch u =
     (AList.update tid (apply_task_update task patch u) S, Inr (apply_task_update task patch u))"
  by (simp add: update_task_def get_task_or_404_def Let_def)

lemma update_subtask_present:
  "map_of S tid = Some task \<Longrightarrow> find_subtask (t_subtasks task) sid = Some st \<Longrightarrow>
   update_subtask S tid sid patch u now =
     (AList.update tid
        (task\<lparr>t_subtasks := put_subtask (t_subtasks task) sid (apply_subtask_update st patch u now)\<rparr>) S,
      Inr (apply_subtask_update st patch u now))"
  by (simp add: update_subtask_def get_task_or_404_def get_subtask_or_404_def Let_def)

lemma create_subtask_present:
  "map_of S tid = Some task \<Longrightarrow>
   \<exists>st. create_subtask S tid payload ui n1 n2 ue =
          (AList.update tid (task\<lparr>t_subtasks := t_subtasks task @ [st]\<rparr>) S, Inr st)
      \<and> st_id st = ui \<and> st_task_id st = t_id task
      \<and> st_created_at st = n1 \<and> st_updated_at st = n2
      \<and> st_add_to_calendar st = stc_add_to_calendar payload
      \<and> st_calendar_id st = stc_calendar_id payload
      \<and> st_calendar_event_id st =
          (if stc_add_to_calendar payload \<and> stc_calendar_event_id payload = None
              \<and> truthy (stc_calendar_id payload)
           then Some (fake_provider_event_id ue) else stc_calendar_event_id payload)"
  by (simp add: create_subtask_def get_task_or_404_def Let_def)

section \<open>The ownership invariant is kept by every handler\<close>

lemma set_update_subset: "set (AList.update k v al) \<subseteq> insert (k, v) (set al)"
  by (induction al) auto

lemma set_delete_subset: "set (AList.delete k al) \<subseteq> set al"
  by (auto simp: AList.delete_eq)

lemma set_put_subtask_subset: "set (put_subtask sts sid st') \<subseteq> insert st' (set sts)"
  by (induction sts) auto

lemma get_task_or_404_Inr_iff: "get_task_or_404 S tid = Inr task \<longleftrightarrow> map_of S tid = Some task"
  by (simp add: get_task_or_404_def split: option.splits)

lemma get_subtask_or_404_Inr_iff:
  "get_subtask_or_404 task sid = Inr st \<longleftrightarrow> find_subtask (t_subtasks task) sid = Some st"
  by (simp add: get_subtask_or_404_def split: option.splits)

lemma store_inv_lookup:
  "store_inv S \<Longrightarrow> map_of S k = Some t \<Longrightarrow>
   t_id t = k \<and> (\<forall>st \<in> set (t_subtasks t). st_task_id st = k)"
  by (auto simp: store_inv_def dest!: map_of_SomeD)

lemma store_inv_update:
  "store_inv S \<Longrightarrow> t_id t = k \<Longrightarrow> \<forall>st \<in> set (t_subtasks t). st_task_id st = k \<Longrightarrow>
   store_inv (AList.update k t S)"
  using set_update_subset [of k t S] by (auto simp: store_inv_def)

lemma store_inv_delete: "store_inv S \<Longrightarrow> store_inv (AList.delete k S)"
  using set_delete_subset [of k S] by (auto simp: store_inv_def)

lemma store_inv_empty: "store_inv []"
  by (simp add: store_inv_def)

lemma store_inv_create_task: "store_inv S \<Longrightarrow> store_inv (fst (create_task S payload ue ui))"
  by (simp add: create_task_def Let_def store_inv_update)

lemma store_inv_update_task: "store_inv S \<Longrightarrow> store_inv (fst (update_task S tid patch ue))"
proof (cases "map_of S tid")
  case None
  assume "store_inv S"
  with None show ?thesis by (simp add: update_task_def get_task_or_404_def)
next
  case (Some task)
  assume inv: "store_inv S"
  from store_inv_lookup [OF inv Some] show ?thesis
    by (simp add: update_task_present [OF Some] store_inv_update [OF inv])
qed

lemma store_inv_delete_task: "store_inv S \<Longrightarrow> store_inv (fst (delete_task S tid))"
  by (simp add: delete_task_def store_inv_delete split: sum.splits)

lemma store_inv_complete_task: "store_inv S \<Longrightarrow> store_inv (fst (complete_task S tid))"
  by (auto simp: complete_task_def Let_def get_task_or_404_Inr_iff split: sum.splits
      dest: store_inv_lookup intro!: store_inv_update)

lemma store_inv_undo_task: "store_inv S \<Longrightarrow> store_inv (fst (undo_task S tid))"
  by (auto simp: undo_task_def Let_def get_task_or_404_Inr_iff split: sum.splits
      dest: store_inv_lookup intro!: store_inv_update)

lemma store_inv_create_subtask:
  "store_inv S \<Longrightarrow> store_inv (fst (create_subtask S tid payload ui n1 n2 ue))"
proof (cases "map_of S tid")
  case None
  assume "store_inv S"
  with None show ?thesis by (simp add: create_subtask_def get_task_or_404_def)
next
  case (Some task)
  assume inv: "store_inv S"
  from create_subtask_present [OF Some, of payload ui n1 n2 ue]
  obtain st where st: "create_subtask S tid payload ui n1 n2 ue =
          (AList.update tid (task\<lparr>t_subtasks := t_subtasks task @ [st]\<rparr>) S, Inr st)"
    "st_task_id st = t_id task" by blast
  from store_inv_lookup [OF inv Some] st show ?thesis
    by (simp add: store_inv_update [OF inv])
qed

lemma store_inv_put:
  assumes inv: "store_inv S" and t: "map_of S tid = Some task"
    and s: "set sts \<subseteq> insert st' (set (t_subtasks task))" and o: "st_task_id st' = tid"
  shows "store_inv (AList.update tid (task\<lparr>t_subtasks := sts\<rparr>) S)"
proof (rule store_inv_update [OF inv])
  from store_inv_lookup [OF inv t] show "t_id (task\<lparr>t_subtasks := sts\<rparr>) = tid" by simp
  from store_inv_lookup [OF inv t] s o
  show "\<forall>st \<in> set (t_subtasks (task\<lparr>t_subtasks := sts\<rparr>)). st_task_id st = tid" by auto
qed

lemma store_inv_update_subtask:
  "store_inv S \<Longrightarrow> store_inv (fst (update_subtask S tid sid patch ue now))"
proof -
  assume inv: "store_inv S"
  show ?thesis
  proof (cases "map_of S tid")
    case None
    then show ?thesis using inv by (simp add: update_subtask_def get_task_or_404_def)
  next
    case (Some task)
    show ?thesis
    proof (cases "find_subtask (t_subtasks task) sid")
      case None
      then show ?thesis using inv Some
        by (simp add: update_subtask_def get_task_or_404_def get_subtask_or_404_def)
    next
      case (Some st)
      note st = this
      from find_subtask_SomeD [OF st] store_inv_lookup [OF inv \<open>map_of S tid = Some task\<close>]
      have o: "st_task_id (apply_subtask_update st patch ue now) = tid" by simp
      show ?thesis
        by (simp add: update_subtask_present [OF \<open>map_of S tid = Some task\<close> st])
          (rule store_inv_put [OF inv \<open>map_of S tid = Some task\<close> set_put_subtask_subset o])
    qed
  qed
qed

lemma complete_subtask_present:
  "map_of S tid = Some task \<Longrightarrow> find_subtask (t_subtasks task) sid = Some st \<Longrightarrow>
   complete_subtask S tid sid now =
     (AList.update tid
        (task\<lparr>t_subtasks := put_subtask (t_subtasks task) sid
                 (st\<lparr>st_completed := True, st_updated_at := now\<rparr>)\<rparr>) S,
      Inr (st\<lparr>st_completed := True, st_updated_at := now\<rparr>))"
  by (simp add: complete_subtask_def get_task_or_404_def get_subtask_or_404_def Let_def)

lemma undo_subtask_present:
  "map_of S tid = Some task \<Longrightarrow> find_subtask (t_subtasks task) sid = Some st \<Longrightarrow>
   undo_subtask S tid sid now =
     (AList.update tid
        (task\<lparr>t_subtasks := put_subtask (t_subtasks task) sid
                 (st\<lparr>st_completed := False, st_updated_at := now\<rparr>)\<rparr>) S,
      Inr (st\<lparr>st_completed := False, st_updated_at := now\<rparr>))"
  by (simp add: undo_subtask_def get_task_or_404_def get_subtask_or_404_def Let_def)

lemma delete_subtask_present:
  "map_of S tid = Some task \<Longrightarrow> find_subtask (t_subtasks task) sid = Some st \<Longrightarrow>
   delete_subtask S tid sid =
     (AList.update tid
        (task\<lparr>t_subtasks := filter (\<lambda>s. st_id s \<noteq> st_id st) (t_subtasks task)\<rparr>) S,
      Inr ())"
  by (simp add: delete_subtask_def get_task_or_404_def get_subtask_or_404_def Let_def)

lemma subtask_handler_absent:
  "map_of S tid = None \<Longrightarrow> fst (complete_subtask S tid sid now) = S"
  "map_of S tid = None \<Longrightarrow> fst (undo_subtask S tid sid now) = S"
  "map_of S tid = None \<Longrightarrow> fst (delete_subtask S tid sid) = S"
  "map_of S tid = Some task \<Longrightarrow> find_subtask (t_subtasks task) sid = None \<Longrightarrow>
   fst (complete_subtask S tid sid now) = S"
  "map_of S tid = Some task \<Longrightarrow> find_subtask (t_subtasks task) sid = None \<Longrightarrow>
   fst (undo_subtask S tid sid now) = S"
  "map_of S tid = Some task \<Longrightarrow> find_subtask (t_subtasks task) sid = None \<Longrightarrow>
   fst (delete_subtask S tid sid) = S"
  by (simp_all add: complete_subtask_def undo_subtask_def delete_subtask_def
      get_task_or_404_def get_subtask_or_404_def)

lemma store_inv_complete_subtask:
  assumes inv: "store_inv S"
  shows "store_inv (fst (complete_subtask S tid sid now))"
proof (cases "map_of S tid")
  case None
  then show ?thesis using inv by (simp add: subtask_handler_absent)
next
  case (Some task)
  note t = this
  show ?thesis
  proof (cases "find_subtask (t_subtasks task) sid")
    case None
    then show ?thesis using inv t by (simp add: subtask_handler_absent)
  next
    case (Some st)
    from find_subtask_SomeD [OF Some] store_inv_lookup [OF inv t]
    have o: "st_task_id (st\<lparr>st_completed := True, st_updated_at := now\<rparr>) = tid" by simp
    show ?thesis
      by (simp add: complete_subtask_present [OF t Some])
        (rule store_inv_put [OF inv t set_put_subtask_subset o])
  qed
qed

lemma store_inv_undo_subtask:
  assumes inv: "store_inv S"
  shows "store_inv (fst (undo_subtask S tid sid now))"
proof (cases "map_of S tid")
  case None
  then show ?thesis using inv by (simp add: subtask_handler_absent)
next
  case (Some task)
  note t = this
  show ?thesis
  proof (cases "find_subtask (t_subtasks task) sid")
    case None
    then show ?thesis using inv t by (simp add: subtask_handler_absent)
  next
    case (Some st)
    from find_subtask_SomeD [OF Some] store_inv_lookup [OF inv t]
    have o: "st_task_id (st\<lparr>st_completed := False, st_updated_at := now\<rparr>) = tid" by simp
    show ?thesis
      by (simp add: undo_subtask_present [OF t Some])
        (rule store_inv_put [OF inv t set_put_subtask_subset o])
  qed
qed

lemma store_inv_delete_subtask:
  assumes inv: "store_inv S"
  shows "store_inv (fst (delete_subtask S tid sid))"
proof (cases "map_of S tid")
  case None
  then show ?thesis using inv by (simp add: subtask_handler_absent)
next
  case (Some task)
  note t = this
  show ?thesis
  proof (cases "find_subtask (t_subtasks task) sid")
    case None
    then show ?thesis using inv t by (simp add: subtask_handler_absent)
  next
    case (Some st)
    from find_subtask_SomeD [OF Some] store_inv_lookup [OF inv t]
    have o: "st_task_id st = tid" by simp
    have s: "set (filter (\<lambda>s. st_id s \<noteq> st_id st) (t_subtasks task))
        \<subseteq> insert st (set (t_subtasks task))" by auto
    show ?thesis
      by (simp add: delete_subtask_present [OF t Some]) (rule store_inv_put [OF inv t s o])
  qed
qed

lemma fst_outcome_any [simp]: "fst (outcome p) = fst p"
  by (cases p, cases "snd p") simp_all

lemma store_inv_handle: "store_inv S \<Longrightarrow> store_inv (handle pf S r)"
  by (cases r)
    (simp_all add: handle_def get_task_def
      store_inv_create_task store_inv_update_task store_inv_delete_task
      store_inv_complete_task store_inv_undo_task store_inv_create_subtask
      store_inv_update_subtask store_inv_delete_subtask store_inv_complete_subtask
      store_inv_undo_subtask split: sum.splits)

lemma store_inv_serve: "store_inv S \<Longrightarrow> store_inv (serve pf S reqs)"
  unfolding serve_def by (induction reqs arbitrary: S) (simp_all add: store_inv_handle)

section \<open>A missing task stays missing\<close>

lemma respond_task_absent:
  "path_task_id r = Some tid \<Longrightarrow> tid \<notin> fst ` set S \<Longrightarrow>
   respond pf S r = (S, Some (HTTPException 404 ''Task not found''))"
  by (cases r) (simp_all add: handler_defs get_task_or_404_absent)

lemma handle_keeps_absent:
  "map_of S tid = None \<Longrightarrow> created_task_id r \<noteq> Some tid \<Longrightarrow>
   map_of (handle pf S r) tid = None"
  by (cases r)
    (auto simp: handle_def handler_defs create_task_def Let_def
      update_conv' delete_conv' get_task_or_404_Inr_iff get_subtask_or_404_Inr_iff
      split: sum.splits)

lemma serve_keeps_absent:
  "map_of S tid = None \<Longrightarrow> \<forall>r \<in> set reqs. created_task_id r \<noteq> Some tid \<Longrightarrow>
   map_of (serve pf S reqs) tid = None"
  unfolding serve_def
  by (induction reqs arbitrary: S) (simp_all add: handle_keeps_absent)

section \<open>Comparing and converting datetimes\<close>

lemma colombo_date_Aware:
  "datetime_min \<le> wall - offset \<Longrightarrow> wall - offset \<le> datetime_max \<Longrightarrow>
   datetime_min \<le> wall - offset + colombo_utcoffset pf (wall - offset) \<Longrightarrow>
   wall - offset + colombo_utcoffset pf (wall - offset) \<le> datetime_max \<Longrightarrow>
   colombo_date pf (Aware wall offset)
     = Inr ((wall - offset + colombo_utcoffset pf (wall - offset)) div 86400000000)"
  by (simp add: colombo_date_def astimezone_colombo_def to_utc_def in_range_def date_of_def
      microseconds_per_day_def)

lemma colombo_date_Naive:
  "server_utcoffset pf wall = Some offset \<Longrightarrow>
   datetime_min \<le> wall - offset \<Longrightarrow> wall - offset \<le> datetime_max \<Longrightarrow>
   datetime_min \<le> wall - offset + colombo_utcoffset pf (wall - offset) \<Longrightarrow>
   wall - offset + colombo_utcoffset pf (wall - offset) \<le> datetime_max \<Longrightarrow>
   colombo_date pf (Naive wall)
     = Inr ((wall - offset + colombo_utcoffset pf (wall - offset)) div 86400000000)"
  by (simp add: colombo_date_def astimezone_colombo_def to_utc_def in_range_def date_of_def
      microseconds_per_day_def)

lemma check_range_Inr:
  "check_range query = Inr query' \<Longrightarrow>
   query' = query
   \<and> \<not> (\<exists>f t. q_due_from query = Some f \<and> q_due_to query = Some t \<and> instant t < instant f)"
  by (auto simp: check_range_def datetime_gt_def datetime_lt_def
      split: option.splits sum.splits bool.splits if_splits)

lemma check_range_defined:
  "\<forall>f t. q_due_from query = Some f \<and> q_due_to query = Some t \<longrightarrow>
     is_aware f = is_aware t \<and> \<not> instant t < instant f \<Longrightarrow>
   check_range query = Inr query"
  by (auto simp: check_range_def datetime_gt_def datetime_lt_def split: option.splits)

lemma in_due_range_defined:
  "\<forall>d. t_due_datetime task = Some d \<longrightarrow>
     (\<forall>f. due_from = Some f \<longrightarrow> is_aware f = is_aware d)
     \<and> (\<forall>t. due_to = Some t \<longrightarrow> is_aware t = is_aware d) \<Longrightarrow>
   \<exists>b. in_due_range task due_from due_to = Inr b"
  by (cases "t_due_datetime task"; cases due_from; cases due_to)
    (auto simp: in_due_range_def datetime_gt_def datetime_lt_def split: bool.splits)

lemma matches_list_filter_defined:
  "lf = Some filter_today \<or> lf = Some filter_upcoming \<longrightarrow>
     (\<forall>d. t_due_datetime task = Some d \<longrightarrow> (\<exists>day. colombo_date pf d = Inr day)) \<Longrightarrow>
   \<exists>b. matches_list_filter pf now task lf = Inr b"
  by (cases lf; cases "the lf"; cases "t_due_datetime task")
    (auto simp: matches_list_filter_def)

lemma compared_datetimes_iff:
  "d \<in> set (compared_datetimes S df dt) \<longleftrightarrow>
     df = Some d \<or> dt = Some d \<or> (\<exists>(k, task) \<in> set S. t_due_datetime task = Some d)"
proof -
  have s: "x \<in> set (supplied v) \<longleftrightarrow> v = Some x" for x :: datetime and v
    by (cases v) auto
  show ?thesis by (auto simp: compared_datetimes_def s)
qed

lemma compared_bound_from: "df = Some f \<Longrightarrow> f \<in> set (compared_datetimes S df dt)"
  by (simp add: compared_datetimes_def)

lemma compared_bound_to: "dt = Some t \<Longrightarrow> t \<in> set (compared_datetimes S df dt)"
  by (simp add: compared_datetimes_def)

lemma compared_due:
  "(key, task) \<in> set S \<Longrightarrow> t_due_datetime task = Some d \<Longrightarrow>
   d \<in> set (compared_datetimes S df dt)"
  unfolding compared_datetimes_iff by (intro disjI2 bexI [of _ "(key, task)"]) simp_all

section \<open>Scanning and sorting\<close>

lemma scan_tasks_Inr:
  "scan_tasks pf clock i query ts = Inr items \<Longrightarrow>
   items = map snd (filter (\<lambda>(j, task). listed pf (clock j) (q_list query) (q_q query)
                               (q_due_from query) (q_due_to query) task) (enumerate i ts))"
proof (induction ts arbitrary: i items)
  case Nil
  then show ?case by simp
next
  case (Cons task rest)
  show ?case
  proof (cases "listed pf (clock i) (q_list query) (q_q query) (q_due_from query)
      (q_due_to query) task")
    case True
    with Cons.prems obtain items' where
      r: "scan_tasks pf clock (Suc i) query rest = Inr items'" and i: "items = task # items'"
      by (auto simp: listed_def split: sum.splits)
    from Cons.IH [OF r] i True show ?thesis by simp
  next
    case False
    with Cons.prems have "scan_tasks pf clock (Suc i) query rest = Inr items"
      by (auto simp: listed_def split: sum.splits bool.splits if_splits)
    from Cons.IH [OF this] False show ?thesis by simp
  qed
qed

lemma scan_tasks_defined:
  "\<forall>t \<in> set ts. \<exists>b. in_due_range t (q_due_from query) (q_due_to query) = Inr b \<Longrightarrow>
   \<forall>t \<in> set ts. \<forall>now. \<exists>b. matches_list_filter pf now t (q_list query) = Inr b \<Longrightarrow>
   \<exists>items. scan_tasks pf clock i query ts = Inr items"
proof (induction ts arbitrary: i)
  case Nil
  then show ?case by simp
next
  case (Cons task rest)
  from Cons.prems obtain b where b: "in_due_range task (q_due_from query) (q_due_to query) = Inr b"
    by auto
  from Cons.prems obtain c where c: "matches_list_filter pf (clock i) task (q_list query) = Inr c"
    by force
  from Cons.IH [of "Suc i"] Cons.prems obtain items where
    r: "scan_tasks pf clock (Suc i) query rest = Inr items"
    by auto
  show ?case by (simp add: b c r split: bool.splits)
qed

lemma filter_enumerate_const:
  "map snd (filter (\<lambda>(i, x). P x) (enumerate n xs)) = filter P xs"
  by (induction xs arbitrary: n) simp_all

lemma task_sort_key_le:
  "same_kind (t_due_datetime a) (t_due_datetime b) \<Longrightarrow>
   task_sort_key a \<le> task_sort_key b \<longleftrightarrow> due_le (t_due_datetime a) (t_due_datetime b)"
  by (cases "t_due_datetime a"; cases "t_due_datetime b")
    (simp_all add: task_sort_key_def same_kind_def)

lemma sort_tasks_Inr:
  assumes "sort_tasks items = Inr ys"
  shows "ys = sort_key task_sort_key items"
    and "sorted_wrt (\<lambda>a b. due_le (t_due_datetime a) (t_due_datetime b)) ys"
proof -
  from assms have k: "\<forall>a \<in> set items. \<forall>b \<in> set items.
      same_kind (t_due_datetime a) (t_due_datetime b)"
    and y: "ys = sort_key task_sort_key items"
    by (simp_all add: sort_tasks_def list_all_iff split: if_splits)
  show "ys = sort_key task_sort_key items" by (rule y)
  have "sorted (map task_sort_key ys)" unfolding y by (rule sorted_sort_key)
  then have "sorted_wrt (\<lambda>a b. task_sort_key a \<le> task_sort_key b) ys"
    by (simp add: sorted_map)
  moreover have "set ys = set items" unfolding y by simp
  ultimately show "sorted_wrt (\<lambda>a b. due_le (t_due_datetime a) (t_due_datetime b)) ys"
    using k by (auto intro: sorted_wrt_mono_rel [rotated] simp: task_sort_key_le)
qed

lemma sort_tasks_defined:
  "\<forall>a \<in> set items. \<forall>b \<in> set items. same_kind (t_due_datetime a) (t_due_datetime b) \<Longrightarrow>
   sort_tasks items = Inr (sort_key task_sort_key items)"
  by (simp add: sort_tasks_def list_all_iff)

lemma list_tasks_Inr:
  assumes "list_tasks pf clock S lf q df dt = (S', Inr ys)"
  shows "S' = S"
    and "\<not> (\<exists>f t. df = Some f \<and> dt = Some t \<and> instant t < instant f)"
    and "sort_tasks (kept_tasks pf clock lf q df dt S) = Inr ys"
proof -
  let ?query = "\<lparr>q_list = lf, q_q = q, q_due_from = df, q_due_to = dt\<rparr>"
  obtain query where c: "check_range ?query = Inr query"
  proof (cases "check_range ?query")
    case (Inl e)
    with assms show ?thesis by (simp add: list_tasks_def)
  next
    case (Inr query)
    with that show ?thesis by blast
  qed
  obtain items where s: "scan_tasks pf clock 0 query (map snd S) = Inr items"
  proof (cases "scan_tasks pf clock 0 query (map snd S)")
    case (Inl e)
    with assms c show ?thesis by (simp add: list_tasks_def)
  next
    case (Inr items)
    with that show ?thesis by blast
  qed
  from assms c s have o: "sort_tasks items = Inr ys" and e: "S' = S"
    by (simp_all add: list_tasks_def)
  from check_range_Inr [OF c] have q: "query = ?query"
    and r: "\<not> (\<exists>f t. df = Some f \<and> dt = Some t \<and> instant t < instant f)"
    by simp_all
  from scan_tasks_Inr [OF s] have "items = kept_tasks pf clock lf q df dt S"
    by (simp add: q kept_tasks_def)
  with o e r show "S' = S"
    "\<not> (\<exists>f t. df = Some f \<and> dt = Some t \<and> instant t < instant f)"
    "sort_tasks (kept_tasks pf clock lf q df dt S) = Inr ys"
    by simp_all
qed

lemma list_tasks_defined:
  assumes k: "\<forall>a \<in> set (compared_datetimes S df dt). \<forall>b \<in> set (compared_datetimes S df dt).
      is_aware a = is_aware b"
    and r: "\<not> (\<exists>f t. df = Some f \<and> dt = Some t \<and> instant t < instant f)"
    and c: "lf = Some filter_today \<or> lf = Some filter_upcoming \<longrightarrow>
      (\<forall>(k, task) \<in> set S. \<forall>d. t_due_datetime task = Some d \<longrightarrow>
         (\<exists>day. colombo_date pf d = Inr day))"
  shows "\<exists>ys. list_tasks pf clock S lf q df dt = (S, Inr ys)"
proof -
  let ?query = "\<lparr>q_list = lf, q_q = q, q_due_from = df, q_due_to = dt\<rparr>"
  have kk: "is_aware a = is_aware b"
    if "a \<in> set (compared_datetimes S df dt)" "b \<in> set (compared_datetimes S df dt)" for a b
    using k that by blast
  have 1: "check_range ?query = Inr ?query"
  proof (rule check_range_defined, intro allI impI)
    fix f t assume "q_due_from ?query = Some f \<and> q_due_to ?query = Some t"
    then have f: "df = Some f" and t: "dt = Some t" by simp_all
    from r f t have "\<not> instant t < instant f" by blast
    moreover have "is_aware f = is_aware t"
      by (rule kk [OF compared_bound_from [OF f] compared_bound_to [OF t]])
    ultimately show "is_aware f = is_aware t \<and> \<not> instant t < instant f" by simp
  qed
  have 2: "\<forall>t \<in> set (map snd S). \<exists>b. in_due_range t (q_due_from ?query) (q_due_to ?query) = Inr b"
  proof
    fix t assume "t \<in> set (map snd S)"
    then obtain key where m: "(key, t) \<in> set S" by auto
    have "\<exists>b. in_due_range t df dt = Inr b"
    proof (rule in_due_range_defined, intro allI impI conjI)
      fix d f assume d: "t_due_datetime t = Some d" and f: "df = Some f"
      show "is_aware f = is_aware d"
        by (rule kk [OF compared_bound_from [OF f] compared_due [OF m d]])
    next
      fix d u assume d: "t_due_datetime t = Some d" and u: "dt = Some u"
      show "is_aware u = is_aware d"
        by (rule kk [OF compared_bound_to [OF u] compared_due [OF m d]])
    qed
    then show "\<exists>b. in_due_range t (q_due_from ?query) (q_due_to ?query) = Inr b" by simp
  qed
  have 3: "\<forall>t \<in> set (map snd S). \<forall>now. \<exists>b. matches_list_filter pf now t (q_list ?query) = Inr b"
  proof (intro ballI allI)
    fix t now assume "t \<in> set (map snd S)"
    then obtain key where m: "(key, t) \<in> set S" by auto
    have "\<exists>b. matches_list_filter pf now t lf = Inr b"
    proof (rule matches_list_filter_defined, intro impI allI)
      fix d assume l: "lf = Some filter_today \<or> lf = Some filter_upcoming"
        and d: "t_due_datetime t = Some d"
      from c l have "\<forall>(k, task) \<in> set S. \<forall>d. t_due_datetime task = Some d \<longrightarrow>
         (\<exists>day. colombo_date pf d = Inr day)" by (rule mp)
      from bspec [OF this m] d show "\<exists>day. colombo_date pf d = Inr day" by simp
    qed
    then show "\<exists>b. matches_list_filter pf now t (q_list ?query) = Inr b" by simp
  qed
  from scan_tasks_defined [OF 2 3, of clock 0] obtain items where
    s: "scan_tasks pf clock 0 ?query (map snd S) = Inr items" by blast
  have sub: "set items \<subseteq> set (map snd S)"
    unfolding scan_tasks_Inr [OF s] by (auto simp: in_set_enumerate_eq)
  have "\<forall>a \<in> set items. \<forall>b \<in> set items. same_kind (t_due_datetime a) (t_due_datetime b)"
  proof (intro ballI)
    fix a b assume "a \<in> set items" "b \<in> set items"
    with sub have "a \<in> snd ` set S" "b \<in> snd ` set S" by auto
    then obtain ka kb where m: "(ka, a) \<in> set S" "(kb, b) \<in> set S" by force
    show "same_kind (t_due_datetime a) (t_due_datetime b)"
    proof (cases "t_due_datetime a")
      case None
      then show ?thesis by (simp add: same_kind_def)
    next
      case (Some x)
      note x = this
      show ?thesis
      proof (cases "t_due_datetime b")
        case None
        then show ?thesis by (simp add: same_kind_def x)
      next
        case (Some y)
        have "is_aware x = is_aware y"
          by (rule kk [OF compared_due [OF m(1) x] compared_due [OF m(2) Some]])
        then show ?thesis by (simp add: same_kind_def x Some)
      qed
    qed
  qed
  from sort_tasks_defined [OF this] have o: "sort_tasks items = Inr (sort_key task_sort_key items)" .
  show ?thesis
    by (rule exI [of _ "sort_key task_sort_key items"]) (simp add: list_tasks_def 1 s o)
qed

section \<open>The other subtasks of a list\<close>

lemma find_put_subtask_other:
  "st_id st' = sid \<Longrightarrow> sid' \<noteq> sid \<Longrightarrow>
   find_subtask (put_subtask sts sid st') sid' = find_subtask sts sid'"
  by (induction sts) auto

section \<open>Updating the calendar event of a task\<close>

text \<open>
  C1. Update Task treats the patch field \<open>calendar_event\<close> by presence. For every task
  stored under the id of the request, the update returns the task it leaves in the store,
  and: if \<open>calendar_event\<close> was not supplied, the calendar event of the task is unchanged;
  if it was supplied as null, the task has no calendar event; if it was supplied in the
  create-request shape, the task has a new calendar event, whatever it had before, with
  the fields of the request and the simulated event id made from the UUID drawn in this
  call (different draws make different ids); if it was supplied as an event that has an
  event id, the task holds exactly that event.
\<close>

theorem update_task_calendar_event:
  assumes "map_of TASKS task_id = Some task"
  shows "\<exists>task'. snd (update_task TASKS task_id patch u) = Inr task'
           \<and> map_of (fst (update_task TASKS task_id patch u)) task_id = Some task'
           \<and> (''calendar_event'' \<notin> tu_model_fields_set patch \<longrightarrow>
                t_calendar_event task' = t_calendar_event task)
           \<and> (''calendar_event'' \<in> tu_model_fields_set patch \<longrightarrow>
                (tu_calendar_event patch = None \<longrightarrow> t_calendar_event task' = None)
              \<and> (\<forall>c. tu_calendar_event patch = Some (IsCalendarEventCreate c) \<longrightarrow>
                   (\<exists>ev. t_calendar_event task' = Some ev
                       \<and> ce_event_id ev = fake_provider_event_id u
                       \<and> calendar_event_base.truncate ev = c
                       \<and> (\<forall>u'. (fake_provider_event_id u' = ce_event_id ev) = (u' = u))))
              \<and> (\<forall>e. tu_calendar_event patch = Some (IsCalendarEvent e) \<longrightarrow>
                   t_calendar_event task' = Some e))"
  using assms
  by (auto simp: update_task_def get_task_or_404_def Let_def update_conv'
      apply_task_update_def materialize_def calendar_event_base.truncate_def
      fake_provider_event_id_inj
      split: option.splits calendar_event_patch.splits)

theorem update_task_calendar_event_witness:
  "map_of sample_store 1 = Some sample_task
   \<and> (\<exists>task'. map_of (fst (update_task sample_store 1 empty_task_update 5)) 1 = Some task'
         \<and> t_calendar_event task' = Some sample_event)
   \<and> (\<exists>task'. map_of (fst (update_task sample_store 1
           (empty_task_update\<lparr>tu_model_fields_set := {''calendar_event''}\<rparr>) 5)) 1 = Some task'
         \<and> t_calendar_event task' = None)
   \<and> (\<exists>task' ev. map_of (fst (update_task sample_store 1
           (empty_task_update\<lparr>tu_calendar_event := Some (IsCalendarEventCreate sample_event_create),
              tu_model_fields_set := {''calendar_event''}\<rparr>) 5)) 1 = Some task'
         \<and> t_calendar_event task' = Some ev
         \<and> ce_event_id ev = fake_provider_event_id 5 \<and> ce_summary ev = ''call bank'')
   \<and> (\<exists>task'. map_of (fst (update_task sample_store 1
           (empty_task_update\<lparr>tu_calendar_event :=
                Some (IsCalendarEvent (sample_event\<lparr>ce_event_id := ''evt_9''\<rparr>)),
              tu_model_fields_set := {''calendar_event''}\<rparr>) 5)) 1 = Some task'
         \<and> t_calendar_event task' = Some (sample_event\<lparr>ce_event_id := ''evt_9''\<rparr>))"
proof -
  have h: "map_of sample_store 1 = Some sample_task"
    by (simp add: sample_store_def)
  have a: "\<exists>task'. map_of (fst (update_task sample_store 1 empty_task_update 5)) 1 = Some task'
         \<and> t_calendar_event task' = Some sample_event"
    using update_task_calendar_event [OF h, of empty_task_update 5]
    by (auto simp: empty_task_update_def sample_task_def)
  have b: "\<exists>task'. map_of (fst (update_task sample_store 1
           (empty_task_update\<lparr>tu_model_fields_set := {''calendar_event''}\<rparr>) 5)) 1 = Some task'
         \<and> t_calendar_event task' = None"
    using update_task_calendar_event [OF h,
        of "empty_task_update\<lparr>tu_model_fields_set := {''calendar_event''}\<rparr>" 5]
    by (auto simp: empty_task_update_def)
  have c: "\<exists>task' ev. map_of (fst (update_task sample_store 1
           (empty_task_update\<lparr>tu_calendar_event := Some (IsCalendarEventCreate sample_event_create),
              tu_model_fields_set := {''calendar_event''}\<rparr>) 5)) 1 = Some task'
         \<and> t_calendar_event task' = Some ev
         \<and> ce_event_id ev = fake_provider_event_id 5 \<and> ce_summary ev = ''call bank''"
    using update_task_calendar_event [OF h,
        of "empty_task_update\<lparr>tu_calendar_event := Some (IsCalendarEventCreate sample_event_create),
              tu_model_fields_set := {''calendar_event''}\<rparr>" 5]
    by (auto simp: empty_task_update_def calendar_event_base.truncate_def
        sample_event_create_def)
  have d: "\<exists>task'. map_of (fst (update_task sample_store 1
           (empty_task_update\<lparr>tu_calendar_event :=
                Some (IsCalendarEvent (sample_event\<lparr>ce_event_id := ''evt_9''\<rparr>)),
              tu_model_fields_set := {''calendar_event''}\<rparr>) 5)) 1 = Some task'
         \<and> t_calendar_event task' = Some (sample_event\<lparr>ce_event_id := ''evt_9''\<rparr>)"
    using update_task_calendar_event [OF h,
        of "empty_task_update\<lparr>tu_calendar_event :=
                Some (IsCalendarEvent (sample_event\<lparr>ce_event_id := ''evt_9''\<rparr>)),
              tu_model_fields_set := {''calendar_event''}\<rparr>" 5]
    by (auto simp: empty_task_update_def)
  from h a b c d show ?thesis by blast
qed

section \<open>Requests that name a missing task or subtask\<close>

text \<open>
  C2. Every request whose route carries a task id (get, update, delete, complete and undo
  of a task, listing and creating subtasks, update, delete, complete and undo of a
  subtask) fails with NotFound (status 404) when no task is stored under that id; every
  request whose route carries a subtask id fails with NotFound when the task is there and
  no subtask of its list has that id; and a request that fails, whatever the request,
  leaves the store as it was.
\<close>

theorem not_found_leaves_store_unchanged:
  "(path_task_id r = Some tid \<and> tid \<notin> fst ` set S \<longrightarrow>
      (\<exists>e. respond pf S r = (S, Some e) \<and> is_not_found e))
   \<and> (path_task_id r = Some tid \<and> map_of S tid = Some task \<and> path_subtask_id r = Some sid
        \<and> sid \<notin> st_id ` set (t_subtasks task) \<longrightarrow>
      (\<exists>e. respond pf S r = (S, Some e) \<and> is_not_found e))
   \<and> (snd (respond pf S r) \<noteq> None \<longrightarrow> fst (respond pf S r) = S)"
proof (intro conjI impI)
  assume "path_task_id r = Some tid \<and> tid \<notin> fst ` set S"
  then show "\<exists>e. respond pf S r = (S, Some e) \<and> is_not_found e"
    by (cases r) (simp_all add: handler_defs get_task_or_404_absent)
next
  assume "path_task_id r = Some tid \<and> map_of S tid = Some task \<and> path_subtask_id r = Some sid
        \<and> sid \<notin> st_id ` set (t_subtasks task)"
  then show "\<exists>e. respond pf S r = (S, Some e) \<and> is_not_found e"
    by (cases r) (simp_all add: handler_defs get_task_or_404_present get_subtask_or_404_absent)
next
  assume "snd (respond pf S r) \<noteq> None"
  then show "fst (respond pf S r) = S"
    by (cases r)
      (auto simp: handler_defs list_tasks_def create_task_def Let_def
        split: sum.splits)
qed

theorem not_found_leaves_store_unchanged_witness:
  "path_task_id (UpdateTask 9 empty_task_update 5) = Some 9 \<and> 9 \<notin> fst ` set sample_store
   \<and> (\<exists>e. respond sample_platform sample_store (UpdateTask 9 empty_task_update 5)
            = (sample_store, Some e) \<and> is_not_found e)
   \<and> path_task_id (CompleteSubtask 1 13 (Naive 0)) = Some 1 \<and> map_of sample_store 1 = Some sample_task
   \<and> path_subtask_id (CompleteSubtask 1 13 (Naive 0)) = Some 13
   \<and> 13 \<notin> st_id ` set (t_subtasks sample_task)
   \<and> (\<exists>e. respond sample_platform sample_store (CompleteSubtask 1 13 (Naive 0))
            = (sample_store, Some e) \<and> is_not_found e)
   \<and> snd (respond sample_platform sample_store (DeleteTask 9)) \<noteq> None
   \<and> fst (respond sample_platform sample_store (DeleteTask 9)) = sample_store"
proof -
  have a: "path_task_id (UpdateTask 9 empty_task_update 5) = Some 9 \<and> 9 \<notin> fst ` set sample_store"
    by (simp add: sample_store_def)
  have b: "path_task_id (CompleteSubtask 1 13 (Naive 0)) = Some 1 \<and> map_of sample_store 1 = Some sample_task
      \<and> path_subtask_id (CompleteSubtask 1 13 (Naive 0)) = Some 13
      \<and> 13 \<notin> st_id ` set (t_subtasks sample_task)"
    by (simp add: sample_store_def sample_task_def sample_subtask_def plain_subtask_def)
  have c: "snd (respond sample_platform sample_store (DeleteTask 9)) \<noteq> None"
    by (simp add: delete_task_def get_task_or_404_def sample_store_def)
  from a b c
    not_found_leaves_store_unchanged [where r = "UpdateTask 9 empty_task_update 5"
      and tid = 9 and S = sample_store and pf = sample_platform]
    not_found_leaves_store_unchanged [where r = "CompleteSubtask 1 13 (Naive 0)" and tid = 1
      and S = sample_store and task = sample_task and sid = 13 and pf = sample_platform]
    not_found_leaves_store_unchanged [where r = "DeleteTask 9" and S = sample_store
      and pf = sample_platform]
  show ?thesis by blast
qed

section \<open>A null scalar field of a patch\<close>



section \<open>The event id of a subtask\<close>

text \<open>
  C5, as the claim states it, fails where \<open>calendar_id\<close> is set to the empty string: Create
  Subtask with \<open>add_to_calendar\<close> true, \<open>calendar_id\<close> the empty string and no
  \<open>calendar_event_id\<close> stores the subtask without an event id, since the handler tests the
  truth value of \<open>calendar_id\<close>.
\<close>

theorem create_subtask_empty_calendar_id_counterexample:
  "map_of sample_store 1 = Some sample_task
   \<and> stc_add_to_calendar (sample_subtask_create\<lparr>stc_calendar_id := Some ''''\<rparr>)
   \<and> stc_calendar_id (sample_subtask_create\<lparr>stc_calendar_id := Some ''''\<rparr>) = Some ''''
   \<and> stc_calendar_event_id (sample_subtask_create\<lparr>stc_calendar_id := Some ''''\<rparr>) = None
   \<and> snd (create_subtask sample_store 1 (sample_subtask_create\<lparr>stc_calendar_id := Some ''''\<rparr>)
          13 (Naive 1700000002000000) (Naive 1700000002000001) 5)
       = Inr \<lparr>st_title = ''print form'', st_due_datetime = None, st_completed = False,
               st_add_to_calendar = True, st_event_duration_minutes = 60,
               st_calendar_id = Some '''', st_calendar_event_id = None,
               st_id = 13, st_task_id = 1,
               st_created_at = Naive 1700000002000000,
               st_updated_at = Naive 1700000002000001\<rparr>"
  by (simp add: create_subtask_def get_task_or_404_def sample_store_def sample_task_def
      sample_subtask_create_def truthy_def Let_def)

text \<open>
  C5, amended. On Create Subtask, and after applying the patch on Update Subtask, if
  \<open>add_to_calendar\<close> is true and \<open>calendar_id\<close> is set to a non-empty string and
  \<open>calendar_event_id\<close> is absent, the subtask receives the simulated event id of the call,
  which is not empty; a subtask returned by Update Subtask that has \<open>add_to_calendar\<close> and
  a non-empty \<open>calendar_id\<close> has a non-empty \<open>calendar_event_id\<close>; and Update Subtask sets
  \<open>updated_at\<close> to the clock reading of the call.
\<close>

theorem subtask_event_id_auto_assigned:
  "(map_of S tid = Some task \<longrightarrow>
      (\<exists>st. snd (create_subtask S tid payload ui n1 n2 ue) = Inr st
         \<and> map_of (fst (create_subtask S tid payload ui n1 n2 ue)) tid
             = Some (task\<lparr>t_subtasks := t_subtasks task @ [st]\<rparr>)
         \<and> (stc_add_to_calendar payload
              \<and> (\<exists>c. stc_calendar_id payload = Some c \<and> c \<noteq> [])
              \<and> stc_calendar_event_id payload = None \<longrightarrow>
             st_calendar_event_id st = Some (fake_provider_event_id ue)
             \<and> fake_provider_event_id ue \<noteq> [])))
   \<and> (map_of S tid = Some task \<and> find_subtask (t_subtasks task) sid = Some st0 \<longrightarrow>
      (\<exists>task' st'. snd (update_subtask S tid sid patch ue now) = Inr st'
         \<and> map_of (fst (update_subtask S tid sid patch ue now)) tid = Some task'
         \<and> find_subtask (t_subtasks task') sid = Some st'
         \<and> st_updated_at st' = now
         \<and> ((case stu_add_to_calendar patch of None \<Rightarrow> st_add_to_calendar st0 | Some v \<Rightarrow> v)
              \<and> (\<exists>c. (case stu_calendar_id patch of None \<Rightarrow> st_calendar_id st0
                       | Some v \<Rightarrow> Some v) = Some c \<and> c \<noteq> [])
              \<and> (case stu_calendar_event_id patch of None \<Rightarrow> st_calendar_event_id st0
                  | Some v \<Rightarrow> Some v) = None \<longrightarrow>
             st_calendar_event_id st' = Some (fake_provider_event_id ue)
             \<and> fake_provider_event_id ue \<noteq> [])
         \<and> (st_add_to_calendar st' \<and> truthy (st_calendar_id st') \<longrightarrow>
             truthy (st_calendar_event_id st'))))"
proof (intro conjI impI)
  assume h: "map_of S tid = Some task"
  from create_subtask_present [OF h, of payload ui n1 n2 ue]
  obtain st where st: "create_subtask S tid payload ui n1 n2 ue =
          (AList.update tid (task\<lparr>t_subtasks := t_subtasks task @ [st]\<rparr>) S, Inr st)"
    "st_calendar_event_id st =
          (if stc_add_to_calendar payload \<and> stc_calendar_event_id payload = None
              \<and> truthy (stc_calendar_id payload)
           then Some (fake_provider_event_id ue) else stc_calendar_event_id payload)"
    by blast
  show "\<exists>st. snd (create_subtask S tid payload ui n1 n2 ue) = Inr st
         \<and> map_of (fst (create_subtask S tid payload ui n1 n2 ue)) tid
             = Some (task\<lparr>t_subtasks := t_subtasks task @ [st]\<rparr>)
         \<and> (stc_add_to_calendar payload
              \<and> (\<exists>c. stc_calendar_id payload = Some c \<and> c \<noteq> [])
              \<and> stc_calendar_event_id payload = None \<longrightarrow>
             st_calendar_event_id st = Some (fake_provider_event_id ue)
             \<and> fake_provider_event_id ue \<noteq> [])"
    apply (rule exI [of _ st])
    using st apply (auto simp: update_conv' truthy_def fake_provider_event_id_nonempty)
    done
next
  assume "map_of S tid = Some task \<and> find_subtask (t_subtasks task) sid = Some st0"
  then have h: "map_of S tid = Some task" "find_subtask (t_subtasks task) sid = Some st0"
    by simp_all
  then have sid: "st_id st0 = sid" by (simp add: find_subtask_SomeD)
  let ?st' = "apply_subtask_update st0 patch ue now"
  let ?task' = "task\<lparr>t_subtasks := put_subtask (t_subtasks task) sid ?st'\<rparr>"
  have g: "snd (update_subtask S tid sid patch ue now) = Inr ?st'"
    "map_of (fst (update_subtask S tid sid patch ue now)) tid = Some ?task'"
    "find_subtask (t_subtasks ?task') sid = Some ?st'"
    using h sid by (simp_all add: update_subtask_present update_conv' find_put_subtask)
  have f: "st_updated_at ?st' = now"
    "(case stu_add_to_calendar patch of None \<Rightarrow> st_add_to_calendar st0 | Some v \<Rightarrow> v)
              \<and> (\<exists>c. (case stu_calendar_id patch of None \<Rightarrow> st_calendar_id st0
                       | Some v \<Rightarrow> Some v) = Some c \<and> c \<noteq> [])
              \<and> (case stu_calendar_event_id patch of None \<Rightarrow> st_calendar_event_id st0
                  | Some v \<Rightarrow> Some v) = None \<longrightarrow>
             st_calendar_event_id ?st' = Some (fake_provider_event_id ue)
             \<and> fake_provider_event_id ue \<noteq> []"
    "st_add_to_calendar ?st' \<and> truthy (st_calendar_id ?st') \<longrightarrow>
             truthy (st_calendar_event_id ?st')"
    by (auto simp: apply_subtask_update_sel apply_subtask_update_event_id truthy_def
        fake_provider_event_id_nonempty)
  show "\<exists>task' st'. snd (update_subtask S tid sid patch ue now) = Inr st'
         \<and> map_of (fst (update_subtask S tid sid patch ue now)) tid = Some task'
         \<and> find_subtask (t_subtasks task') sid = Some st'
         \<and> st_updated_at st' = now
         \<and> ((case stu_add_to_calendar patch of None \<Rightarrow> st_add_to_calendar st0 | Some v \<Rightarrow> v)
              \<and> (\<exists>c. (case stu_calendar_id patch of None \<Rightarrow> st_calendar_id st0
                       | Some v \<Rightarrow> Some v) = Some c \<and> c \<noteq> [])
              \<and> (case stu_calendar_event_id patch of None \<Rightarrow> st_calendar_event_id st0
                  | Some v \<Rightarrow> Some v) = None \<longrightarrow>
             st_calendar_event_id st' = Some (fake_provider_event_id ue)
             \<and> fake_provider_event_id ue \<noteq> [])
         \<and> (st_add_to_calendar st' \<and> truthy (st_calendar_id st') \<longrightarrow>
             truthy (st_calendar_event_id st'))"
    apply (rule exI [of _ ?task'])
    apply (rule exI [of _ ?st'])
    using g f apply blast
    done
qed

theorem subtask_event_id_auto_assigned_witness:
  "map_of sample_store 1 = Some sample_task
   \<and> stc_add_to_calendar sample_subtask_create
   \<and> stc_calendar_id sample_subtask_create = Some ''cal1''
   \<and> stc_calendar_event_id sample_subtask_create = None
   \<and> (\<exists>st. snd (create_subtask sample_store 1 sample_subtask_create 13 (Naive 7) (Naive 8) 5) = Inr st
         \<and> st_calendar_event_id st = Some (fake_provider_event_id 5))
   \<and> find_subtask (t_subtasks sample_task) 12 = Some plain_subtask
   \<and> (\<exists>st'. snd (update_subtask sample_store 1 12
            (empty_subtask_update\<lparr>stu_add_to_calendar := Some True,
               stu_calendar_id := Some ''cal1''\<rparr>) 5 (Naive 9)) = Inr st'
         \<and> st_updated_at st' = Naive 9
         \<and> st_calendar_event_id st' = Some (fake_provider_event_id 5)
         \<and> truthy (st_calendar_event_id st'))"
proof -
  have h: "map_of sample_store 1 = Some sample_task"
    by (simp add: sample_store_def)
  have p: "stc_add_to_calendar sample_subtask_create"
    "stc_calendar_id sample_subtask_create = Some ''cal1''"
    "stc_calendar_event_id sample_subtask_create = None"
    by (simp_all add: sample_subtask_create_def)
  have s: "find_subtask (t_subtasks sample_task) 12 = Some plain_subtask"
    by (simp add: sample_task_def sample_subtask_def plain_subtask_def)
  have a: "\<exists>st. snd (create_subtask sample_store 1 sample_subtask_create 13 (Naive 7) (Naive 8) 5) = Inr st
         \<and> st_calendar_event_id st = Some (fake_provider_event_id 5)"
    using h p subtask_event_id_auto_assigned [where S = sample_store and tid = 1
        and task = sample_task and payload = sample_subtask_create and ui = 13 and ?n1.0 = "Naive 7"
        and ?n2.0 = "Naive 8" and ue = 5, THEN conjunct1]
    by auto
  have b: "\<exists>st'. snd (update_subtask sample_store 1 12
            (empty_subtask_update\<lparr>stu_add_to_calendar := Some True,
               stu_calendar_id := Some ''cal1''\<rparr>) 5 (Naive 9)) = Inr st'
         \<and> st_updated_at st' = Naive 9
         \<and> st_calendar_event_id st' = Some (fake_provider_event_id 5)
         \<and> truthy (st_calendar_event_id st')"
    using h s subtask_event_id_auto_assigned [where S = sample_store and tid = 1
        and task = sample_task and sid = 12 and ?st0.0 = plain_subtask
        and patch = "empty_subtask_update\<lparr>stu_add_to_calendar := Some True,
               stu_calendar_id := Some ''cal1''\<rparr>" and ue = 5 and now = "Naive 9", THEN conjunct2]
    by (auto simp: empty_subtask_update_def plain_subtask_def truthy_def)
  from h p s a b show ?thesis by blast
qed

section \<open>Deleting a task\<close>

text \<open>
  C8. Delete Task on an id that is in the store removes the entry, and with it the list
  of subtasks the task holds: no key of the store is that id any more, Get, Update and
  Delete on the id fail with NotFound, as does every route that carries the id, the
  subtask routes among them; in a store that satisfies the ownership invariant no
  remaining subtask refers to the id; and the id stays absent after any further requests
  among which no Create Task draws that same id. Delete Task on an id that is not in the
  store fails with NotFound.
\<close>

theorem delete_task_removes:
  "(map_of S tid = Some task \<longrightarrow>
      delete_task S tid = (AList.delete tid S, Inr ())
      \<and> tid \<notin> fst ` set (AList.delete tid S)
      \<and> (\<exists>e. get_task (AList.delete tid S) tid = (AList.delete tid S, Inl e) \<and> is_not_found e)
      \<and> (\<exists>e. update_task (AList.delete tid S) tid patch u = (AList.delete tid S, Inl e)
             \<and> is_not_found e)
      \<and> (\<exists>e. delete_task (AList.delete tid S) tid = (AList.delete tid S, Inl e)
             \<and> is_not_found e)
      \<and> (\<forall>r. path_task_id r = Some tid \<longrightarrow>
            (\<exists>e. respond pf (AList.delete tid S) r = (AList.delete tid S, Some e)
               \<and> is_not_found e))
      \<and> (store_inv S \<longrightarrow>
            (\<forall>(k, t) \<in> set (AList.delete tid S).
               k \<noteq> tid \<and> (\<forall>st \<in> set (t_subtasks t). st_task_id st \<noteq> tid)))
      \<and> (\<forall>reqs. (\<forall>r \<in> set reqs. created_task_id r \<noteq> Some tid) \<longrightarrow>
            map_of (serve pf (AList.delete tid S) reqs) tid = None))
   \<and> (tid \<notin> fst ` set S \<longrightarrow> (\<exists>e. delete_task S tid = (S, Inl e) \<and> is_not_found e))"
proof (intro conjI impI allI)
  assume h: "map_of S tid = Some task"
  show "delete_task S tid = (AList.delete tid S, Inr ())"
    using h by (simp add: delete_task_def get_task_or_404_def)
next
  show a: "tid \<notin> fst ` set (AList.delete tid S)" by (rule delete_notin_dom)
  show "\<exists>e. get_task (AList.delete tid S) tid = (AList.delete tid S, Inl e) \<and> is_not_found e"
    by (simp add: get_task_def get_task_or_404_absent [OF a])
  show "\<exists>e. update_task (AList.delete tid S) tid patch u = (AList.delete tid S, Inl e)
             \<and> is_not_found e"
    by (simp add: update_task_def get_task_or_404_absent [OF a])
  show "\<exists>e. delete_task (AList.delete tid S) tid = (AList.delete tid S, Inl e)
             \<and> is_not_found e"
    by (simp add: delete_task_def get_task_or_404_absent [OF a])
  show "\<exists>e. respond pf (AList.delete tid S) r = (AList.delete tid S, Some e) \<and> is_not_found e"
    if "path_task_id r = Some tid" for r
    by (simp add: respond_task_absent [OF that a])
  show "map_of (serve pf (AList.delete tid S) reqs) tid = None"
    if "\<forall>r \<in> set reqs. created_task_id r \<noteq> Some tid" for reqs
    by (rule serve_keeps_absent [OF _ that]) (simp add: delete_conv')
next
  assume inv: "store_inv S"
  have "store_inv (AList.delete tid S)" by (rule store_inv_delete [OF inv])
  moreover have "\<forall>(k, t) \<in> set (AList.delete tid S). k \<noteq> tid"
    using delete_notin_dom [of tid S] by force
  ultimately show "\<forall>(k, t) \<in> set (AList.delete tid S).
               k \<noteq> tid \<and> (\<forall>st \<in> set (t_subtasks t). st_task_id st \<noteq> tid)"
    by (fastforce simp: store_inv_def)
next
  assume "tid \<notin> fst ` set S"
  then show "\<exists>e. delete_task S tid = (S, Inl e) \<and> is_not_found e"
    by (simp add: delete_task_def get_task_or_404_absent)
qed

theorem delete_task_removes_witness:
  "map_of sample_store 1 = Some sample_task \<and> store_inv sample_store
   \<and> delete_task sample_store 1 = ([(2, undated_task), (3, early_task)], Inr ())
   \<and> (\<exists>e. get_task (AList.delete 1 sample_store) 1 = (AList.delete 1 sample_store, Inl e)
         \<and> is_not_found e)
   \<and> path_task_id (ListSubtasks 1) = Some 1
   \<and> (\<exists>e. respond sample_platform (AList.delete 1 sample_store) (ListSubtasks 1)
           = (AList.delete 1 sample_store, Some e) \<and> is_not_found e)
   \<and> created_task_id (CreateTask sample_task_create 5 4) \<noteq> Some 1
   \<and> created_task_id (CompleteTask 1) \<noteq> Some 1
   \<and> map_of (serve sample_platform (AList.delete 1 sample_store)
         [CreateTask sample_task_create 5 4, CompleteTask 1]) 1 = None
   \<and> 9 \<notin> fst ` set sample_store
   \<and> (\<exists>e. delete_task sample_store 9 = (sample_store, Inl e) \<and> is_not_found e)"
proof -
  have h: "map_of sample_store 1 = Some sample_task"
    by (simp add: sample_store_def)
  have i: "store_inv sample_store"
    by (simp add: store_inv_def sample_store_def sample_task_def undated_task_def
        early_task_def sample_subtask_def plain_subtask_def)
  have d: "AList.delete 1 sample_store = [(2, undated_task), (3, early_task)]"
    by (simp add: sample_store_def AList.delete_eq)
  have c: "\<forall>r \<in> set [CreateTask sample_task_create 5 4, CompleteTask 1].
      created_task_id r \<noteq> Some 1"
    by simp
  have n: "9 \<notin> fst ` set sample_store"
    by (simp add: sample_store_def)
  have p: "path_task_id (ListSubtasks 1) = Some 1" by simp
  note t = delete_task_removes [where S = sample_store and tid = 1 and task = sample_task
      and pf = sample_platform]
  note t9 = delete_task_removes [where S = sample_store and tid = 9]
  have 1: "delete_task sample_store 1 = ([(2, undated_task), (3, early_task)], Inr ())"
    using t h d by simp
  have 2: "\<exists>e. get_task (AList.delete 1 sample_store) 1 = (AList.delete 1 sample_store, Inl e)
         \<and> is_not_found e"
    using t h by blast
  have 3: "\<exists>e. respond sample_platform (AList.delete 1 sample_store) (ListSubtasks 1)
           = (AList.delete 1 sample_store, Some e) \<and> is_not_found e"
    using t h p by blast
  have 4: "map_of (serve sample_platform (AList.delete 1 sample_store)
         [CreateTask sample_task_create 5 4, CompleteTask 1]) 1 = None"
    using t h c by blast
  have 5: "\<exists>e. delete_task sample_store 9 = (sample_store, Inl e) \<and> is_not_found e"
    using t9 n by blast
  from h i 1 2 3 4 5 n show ?thesis by simp
qed

section \<open>Every subtask refers to the task that owns it\<close>

text \<open>
  C9. In every store that a sequence of requests leaves of the empty store, every task is
  stored under its own id and every subtask of its list has that id as \<open>task_id\<close>. Create
  Subtask takes \<open>task_id\<close> from the task it found, and neither patch changes the id of a
  task, nor the \<open>task_id\<close> or the id of a subtask.
\<close>

theorem subtask_owner_invariant:
  "store_inv (serve pf [] reqs)
   \<and> t_id (apply_task_update task patch u) = t_id task
   \<and> st_task_id (apply_subtask_update st spatch u now) = st_task_id st
   \<and> st_id (apply_subtask_update st spatch u now) = st_id st
   \<and> (\<forall>S tid. map_of S tid = Some task \<longrightarrow>
        (\<exists>st'. snd (create_subtask S tid payload ui n1 n2 ue) = Inr st'
            \<and> st_task_id st' = t_id task))"
proof (intro conjI allI impI)
  show "store_inv (serve pf [] reqs)"
    by (rule store_inv_serve [OF store_inv_empty])
next
  fix S :: store and tid :: uuid
  assume "map_of S tid = Some task"
  from create_subtask_present [OF this, of payload ui n1 n2 ue]
  show "\<exists>st'. snd (create_subtask S tid payload ui n1 n2 ue) = Inr st'
            \<and> st_task_id st' = t_id task"
    by auto
qed simp_all

theorem subtask_owner_invariant_witness:
  "store_inv (serve sample_platform []
      [CreateTask sample_task_create 5 1, CreateSubtask 1 sample_subtask_create 11 (Naive 7) (Naive 8) 6,
       UpdateSubtask 1 11 (empty_subtask_update\<lparr>stu_title := Some ''print it''\<rparr>) 6 (Naive 9)])
   \<and> map (\<lambda>(k, t). (k, t_id t, map st_task_id (t_subtasks t)))
        (serve sample_platform []
          [CreateTask sample_task_create 5 1, CreateSubtask 1 sample_subtask_create 11 (Naive 7) (Naive 8) 6,
           UpdateSubtask 1 11 (empty_subtask_update\<lparr>stu_title := Some ''print it''\<rparr>) 6 (Naive 9)])
       = [(1, 1, [1])]
   \<and> map_of sample_store 1 = Some sample_task
   \<and> (\<exists>st'. snd (create_subtask sample_store 1 sample_subtask_create 13 (Naive 7) (Naive 8) 5) = Inr st'
          \<and> st_task_id st' = t_id sample_task)"
proof -
  have e: "map (\<lambda>(k, t). (k, t_id t, map st_task_id (t_subtasks t)))
        (serve sample_platform []
          [CreateTask sample_task_create 5 1, CreateSubtask 1 sample_subtask_create 11 (Naive 7) (Naive 8) 6,
           UpdateSubtask 1 11 (empty_subtask_update\<lparr>stu_title := Some ''print it''\<rparr>) 6 (Naive 9)])
       = [(1, 1, [1])]"
    by (simp add: serve_def handle_def create_task_def create_subtask_def update_subtask_def
        get_task_or_404_def get_subtask_or_404_def Let_def)
  have h: "map_of sample_store 1 = Some sample_task"
    by (simp add: sample_store_def)
  from e h subtask_owner_invariant [of sample_platform
      "[CreateTask sample_task_create 5 1, CreateSubtask 1 sample_subtask_create 11 (Naive 7) (Naive 8) 6,
        UpdateSubtask 1 11 (empty_subtask_update\<lparr>stu_title := Some ''print it''\<rparr>) 6 (Naive 9)]"
      sample_task _ _ _ _ _ sample_subtask_create 13 "Naive 7" "Naive 8" 5]
  show ?thesis by blast
qed

section \<open>The named list filter\<close>

text \<open>
  C4, as the claim states it, fails for a task due 9999-12-31T20:00:00 UTC, a due date the
  schema accepts: its calendar day in Asia/Colombo is after the current day, so the claim
  has the filter \<open>upcoming\<close> match, but the conversion into the zone leaves the range of
  \<^verbatim>\<open>datetime\<close> and the filter raises OverflowError.
\<close>

theorem matches_list_filter_overflow_counterexample:
  "t_due_datetime far_task = Some (Aware 253402286400000000 0)
   \<and> datetime_min \<le> 253402286400000000 \<and> 253402286400000000 \<le> datetime_max
   \<and> colombo_utcoffset sample_platform 253402286400000000 = 19800000000
   \<and> colombo_today sample_now < date_of (253402286400000000 + 19800000000)
   \<and> matches_list_filter sample_platform sample_now far_task (Some filter_upcoming)
       = Inl (OverflowError ''date value out of range'')"
  by (simp add: far_task_def datetime_min_def datetime_max_def sample_platform_def
      colombo_today_def sample_now_def date_of_def microseconds_per_day_def
      matches_list_filter_def colombo_date_def astimezone_colombo_def to_utc_def in_range_def)

text \<open>
  C4, amended. For every task, the filter \<open>done\<close> matches exactly when the task is
  completed, and a task without a due date matches neither \<open>today\<close> nor \<open>upcoming\<close>. For
  every task whose due date converts into the zone Asia/Colombo, \<open>today\<close> matches exactly
  when the calendar day of the due date in that zone is the current day in that zone, and
  \<open>upcoming\<close> exactly when it is after the current day; and whenever one of the two
  filters returns a truth value, it is this one. The current day is the day of the clock
  reading in Asia/Colombo. A due date with a UTC offset converts when its instant, and its
  instant moved by the offset of Asia/Colombo, lie between 0001-01-01T00:00:00 and
  9999-12-31T23:59:59.999999; its calendar day is the day of the moved instant. A due date
  without offset is read in the zone of the server.
\<close>

theorem matches_list_filter_named:
  "matches_list_filter pf now task (Some filter_done) = Inr (t_completed task = True)
   \<and> matches_list_filter pf now (task\<lparr>t_due_datetime := None\<rparr>) (Some filter_today) = Inr False
   \<and> matches_list_filter pf now (task\<lparr>t_due_datetime := None\<rparr>) (Some filter_upcoming)
       = Inr False
   \<and> (t_due_datetime task = Some d \<and> colombo_date pf d = Inr day \<longrightarrow>
        matches_list_filter pf now task (Some filter_today) = Inr (day = colombo_today now)
        \<and> matches_list_filter pf now task (Some filter_upcoming)
            = Inr (day > colombo_today now))
   \<and> (matches_list_filter pf now task (Some filter_today) = Inr b \<longrightarrow>
        b = (\<exists>d day. t_due_datetime task = Some d \<and> colombo_date pf d = Inr day
                \<and> day = colombo_today now))
   \<and> (matches_list_filter pf now task (Some filter_upcoming) = Inr b \<longrightarrow>
        b = (\<exists>d day. t_due_datetime task = Some d \<and> colombo_date pf d = Inr day
                \<and> day > colombo_today now))
   \<and> colombo_today now = wall_clock now div 86400000000
   \<and> (datetime_min \<le> wall - offset \<and> wall - offset \<le> datetime_max
        \<and> datetime_min \<le> wall - offset + colombo_utcoffset pf (wall - offset)
        \<and> wall - offset + colombo_utcoffset pf (wall - offset) \<le> datetime_max \<longrightarrow>
        colombo_date pf (Aware wall offset)
          = Inr ((wall - offset + colombo_utcoffset pf (wall - offset)) div 86400000000)
        \<and> (server_utcoffset pf wall = Some offset \<longrightarrow>
            colombo_date pf (Naive wall)
              = Inr ((wall - offset + colombo_utcoffset pf (wall - offset)) div 86400000000)))"
proof (intro conjI impI)
  assume "t_due_datetime task = Some d \<and> colombo_date pf d = Inr day"
  then show "matches_list_filter pf now task (Some filter_today) = Inr (day = colombo_today now)"
    "matches_list_filter pf now task (Some filter_upcoming) = Inr (day > colombo_today now)"
    by (simp_all add: matches_list_filter_def)
next
  assume "matches_list_filter pf now task (Some filter_today) = Inr b"
  then show "b = (\<exists>d day. t_due_datetime task = Some d \<and> colombo_date pf d = Inr day
                \<and> day = colombo_today now)"
    by (auto simp: matches_list_filter_def split: option.splits sum.splits)
next
  assume "matches_list_filter pf now task (Some filter_upcoming) = Inr b"
  then show "b = (\<exists>d day. t_due_datetime task = Some d \<and> colombo_date pf d = Inr day
                \<and> day > colombo_today now)"
    by (auto simp: matches_list_filter_def split: option.splits sum.splits)
next
  assume r: "datetime_min \<le> wall - offset \<and> wall - offset \<le> datetime_max
        \<and> datetime_min \<le> wall - offset + colombo_utcoffset pf (wall - offset)
        \<and> wall - offset + colombo_utcoffset pf (wall - offset) \<le> datetime_max"
  then show "colombo_date pf (Aware wall offset)
          = Inr ((wall - offset + colombo_utcoffset pf (wall - offset)) div 86400000000)"
    by (simp add: colombo_date_Aware)
  show "colombo_date pf (Naive wall)
          = Inr ((wall - offset + colombo_utcoffset pf (wall - offset)) div 86400000000)"
    if "server_utcoffset pf wall = Some offset"
    using r that by (simp add: colombo_date_Naive)
qed (simp_all add: matches_list_filter_def colombo_today_def date_of_def
    microseconds_per_day_def)

theorem matches_list_filter_named_witness:
  "t_due_datetime sample_task = Some (Aware 1709251200000000 0)
   \<and> colombo_date sample_platform (Aware 1709251200000000 0) = Inr 19783
   \<and> colombo_today sample_now = 19723
   \<and> matches_list_filter sample_platform sample_now sample_task (Some filter_today) = Inr False
   \<and> matches_list_filter sample_platform sample_now sample_task (Some filter_upcoming)
       = Inr True
   \<and> matches_list_filter sample_platform (Aware 1709271000000000 19800000000) sample_task
        (Some filter_today) = Inr True"
proof -
  have d: "t_due_datetime sample_task = Some (Aware 1709251200000000 0)"
    by (simp add: sample_task_def)
  have r: "datetime_min \<le> 1709251200000000 - 0 \<and> 1709251200000000 - 0 \<le> datetime_max
        \<and> datetime_min \<le> 1709251200000000 - 0
              + colombo_utcoffset sample_platform (1709251200000000 - 0)
        \<and> 1709251200000000 - 0 + colombo_utcoffset sample_platform (1709251200000000 - 0)
              \<le> datetime_max"
    by (simp add: datetime_min_def datetime_max_def sample_platform_def)
  note t = matches_list_filter_named [where pf = sample_platform and task = sample_task
      and d = "Aware 1709251200000000 0" and wall = 1709251200000000 and offset = 0]
  have c: "colombo_date sample_platform (Aware 1709251200000000 0) = Inr 19783"
    using r t [where now = sample_now and day = 0] by (simp add: sample_platform_def)
  have n: "colombo_today sample_now = 19723"
    using t [where now = sample_now and day = 0] by (simp add: sample_now_def)
  have n2: "colombo_today (Aware 1709271000000000 19800000000) = 19783"
    using t [where now = "Aware 1709271000000000 19800000000" and day = 0] by simp
  have 1: "matches_list_filter sample_platform sample_now sample_task (Some filter_today)
      = Inr False"
    "matches_list_filter sample_platform sample_now sample_task (Some filter_upcoming)
      = Inr True"
    using d c n t [where now = sample_now and day = 19783] by simp_all
  have 2: "matches_list_filter sample_platform (Aware 1709271000000000 19800000000) sample_task
        (Some filter_today) = Inr True"
    using d c n2 t [where now = "Aware 1709271000000000 19800000000" and day = 19783]
    by simp
  from d c n 1 2 show ?thesis by simp
qed

section \<open>The due-range predicate\<close>

text \<open>
  C7, as the claim states it, fails for a task whose due date has a UTC offset and a bound
  \<open>due_from\<close> that has none, a pair the schema accepts: the comparison raises TypeError, so
  the predicate neither passes nor excludes the task.
\<close>

theorem in_due_range_mixed_counterexample:
  "t_due_datetime sample_task = Some (Aware 1709251200000000 0)
   \<and> in_due_range sample_task (Some (Naive 1704067200000000)) None
       = Inl (TypeError ''cannot compare offset-naive and offset-aware datetimes'')"
  by (simp add: in_due_range_def datetime_lt_def sample_task_def)

text \<open>
  C7, amended. For every pair \<open>due_from\<close>, \<open>due_to\<close>, a task with no due date passes the
  due-range predicate. For every task with a due date and every pair whose supplied bounds
  are of the kind of the due date (all with a UTC offset, or all without), the predicate
  returns a truth value, and the task passes exactly when the due date is not before
  \<open>due_from\<close> (if that bound is supplied) and not after \<open>due_to\<close> (if that bound is
  supplied), the bounds being inclusive. Whenever the predicate returns a truth value,
  for whatever pair, it is that of the due date lying within the inclusive range.
\<close>

theorem in_due_range_inclusive:
  "in_due_range (task\<lparr>t_due_datetime := None\<rparr>) due_from due_to = Inr True
   \<and> (t_due_datetime task = Some d
        \<and> (\<forall>f. due_from = Some f \<longrightarrow> is_aware f = is_aware d)
        \<and> (\<forall>t. due_to = Some t \<longrightarrow> is_aware t = is_aware d) \<longrightarrow>
      in_due_range task due_from due_to
        = Inr ((\<forall>f. due_from = Some f \<longrightarrow> instant f \<le> instant d)
               \<and> (\<forall>t. due_to = Some t \<longrightarrow> instant d \<le> instant t)))
   \<and> (in_due_range task due_from due_to = Inr b \<longrightarrow>
      b = (t_due_datetime task = None
           \<or> (\<exists>d. t_due_datetime task = Some d
                 \<and> (\<forall>f. due_from = Some f \<longrightarrow> due_le (Some f) (Some d))
                 \<and> (\<forall>t. due_to = Some t \<longrightarrow> due_le (Some d) (Some t)))))"
proof (intro conjI impI)
  show "in_due_range (task\<lparr>t_due_datetime := None\<rparr>) due_from due_to = Inr True"
    by (simp add: in_due_range_def)
next
  assume "t_due_datetime task = Some d
        \<and> (\<forall>f. due_from = Some f \<longrightarrow> is_aware f = is_aware d)
        \<and> (\<forall>t. due_to = Some t \<longrightarrow> is_aware t = is_aware d)"
  then have d: "t_due_datetime task = Some d"
    and f: "\<And>f. due_from = Some f \<Longrightarrow> is_aware d = is_aware f"
    and t: "\<And>t. due_to = Some t \<Longrightarrow> is_aware t = is_aware d"
    by simp_all
  show "in_due_range task due_from due_to
        = Inr ((\<forall>f. due_from = Some f \<longrightarrow> instant f \<le> instant d)
               \<and> (\<forall>t. due_to = Some t \<longrightarrow> instant d \<le> instant t))"
  proof (cases due_from)
    case None
    note nf = this
    show ?thesis
    proof (cases due_to)
      case None
      with nf d show ?thesis by (simp add: in_due_range_def)
    next
      case (Some t')
      with nf d t [OF Some] show ?thesis
        by (auto simp: in_due_range_def datetime_gt_def datetime_lt_def split: bool.splits)
    qed
  next
    case (Some f')
    note sf = this
    show ?thesis
    proof (cases due_to)
      case None
      with sf d f [OF sf] show ?thesis
        by (auto simp: in_due_range_def datetime_lt_def split: bool.splits)
    next
      case (Some t')
      with sf d f [OF sf] t [OF Some] show ?thesis
        by (auto simp: in_due_range_def datetime_gt_def datetime_lt_def split: bool.splits)
    qed
  qed
next
  assume "in_due_range task due_from due_to = Inr b"
  then show "b = (t_due_datetime task = None
           \<or> (\<exists>d. t_due_datetime task = Some d
                 \<and> (\<forall>f. due_from = Some f \<longrightarrow> due_le (Some f) (Some d))
                 \<and> (\<forall>t. due_to = Some t \<longrightarrow> due_le (Some d) (Some t))))"
    by (cases "t_due_datetime task"; cases due_from; cases due_to)
      (auto simp: in_due_range_def datetime_gt_def datetime_lt_def
        split: if_splits bool.splits)
qed

theorem in_due_range_inclusive_witness:
  "t_due_datetime sample_task = Some (Aware 1709251200000000 0)
   \<and> is_aware (Aware 1704067200000000 0) = is_aware (Aware 1709251200000000 0)
   \<and> in_due_range sample_task (Some (Aware 1704067200000000 0))
        (Some (Aware 1709251200000000 0)) = Inr True
   \<and> in_due_range sample_task None (Some (Aware 1704067200000000 0)) = Inr False"
proof -
  have d: "t_due_datetime sample_task = Some (Aware 1709251200000000 0)"
    by (simp add: sample_task_def)
  have a: "in_due_range sample_task (Some (Aware 1704067200000000 0))
        (Some (Aware 1709251200000000 0)) = Inr True"
    using d in_due_range_inclusive [where task = sample_task
        and d = "Aware 1709251200000000 0" and due_from = "Some (Aware 1704067200000000 0)"
        and due_to = "Some (Aware 1709251200000000 0)", THEN conjunct2, THEN conjunct1]
    by simp
  have b: "in_due_range sample_task None (Some (Aware 1704067200000000 0)) = Inr False"
    using d in_due_range_inclusive [where task = sample_task
        and d = "Aware 1709251200000000 0" and due_from = None
        and due_to = "Some (Aware 1704067200000000 0)", THEN conjunct2, THEN conjunct1]
    by simp
  from d a b show ?thesis by simp
qed

section \<open>Complete and undo\<close>

text \<open>
  C6. On a task that is in the store, Complete writes back and returns that task with
  \<open>completed\<close> true and nothing else changed, and Undo with \<open>completed\<close> false; a second
  application raises nothing, returns the same task and leaves the same store. On a
  subtask found in the list of the task, Complete and Undo write back and return that
  subtask with \<open>completed\<close> set and \<open>updated_at\<close> the clock reading of the call, in its
  place in the list, with the other subtasks and the other fields of the task as they
  were; a second application raises nothing and leaves the store, and returns the
  subtask, that a single application at the second clock reading leaves and returns.
\<close>

theorem complete_undo_idempotent:
  assumes "map_of S tid = Some task"
  shows "complete_task S tid
           = (AList.update tid (task\<lparr>t_completed := True\<rparr>) S, Inr (task\<lparr>t_completed := True\<rparr>))
       \<and> map_of (fst (complete_task S tid)) tid = Some (task\<lparr>t_completed := True\<rparr>)
       \<and> complete_task (fst (complete_task S tid)) tid = complete_task S tid
       \<and> undo_task S tid
           = (AList.update tid (task\<lparr>t_completed := False\<rparr>) S,
              Inr (task\<lparr>t_completed := False\<rparr>))
       \<and> map_of (fst (undo_task S tid)) tid = Some (task\<lparr>t_completed := False\<rparr>)
       \<and> undo_task (fst (undo_task S tid)) tid = undo_task S tid
       \<and> (find_subtask (t_subtasks task) sid = Some st \<longrightarrow>
            complete_subtask S tid sid n1
              = (AList.update tid
                   (task\<lparr>t_subtasks := put_subtask (t_subtasks task) sid
                            (st\<lparr>st_completed := True, st_updated_at := n1\<rparr>)\<rparr>) S,
                 Inr (st\<lparr>st_completed := True, st_updated_at := n1\<rparr>))
            \<and> (\<exists>task1. map_of (fst (complete_subtask S tid sid n1)) tid = Some task1
                  \<and> task1 = task\<lparr>t_subtasks := t_subtasks task1\<rparr>
                  \<and> find_subtask (t_subtasks task1) sid
                      = Some (st\<lparr>st_completed := True, st_updated_at := n1\<rparr>)
                  \<and> (\<forall>sid'. sid' \<noteq> sid \<longrightarrow>
                        find_subtask (t_subtasks task1) sid'
                          = find_subtask (t_subtasks task) sid'))
            \<and> complete_subtask (fst (complete_subtask S tid sid n1)) tid sid n2
                = complete_subtask S tid sid n2
            \<and> undo_subtask S tid sid n1
              = (AList.update tid
                   (task\<lparr>t_subtasks := put_subtask (t_subtasks task) sid
                            (st\<lparr>st_completed := False, st_updated_at := n1\<rparr>)\<rparr>) S,
                 Inr (st\<lparr>st_completed := False, st_updated_at := n1\<rparr>))
            \<and> (\<exists>task1. map_of (fst (undo_subtask S tid sid n1)) tid = Some task1
                  \<and> task1 = task\<lparr>t_subtasks := t_subtasks task1\<rparr>
                  \<and> find_subtask (t_subtasks task1) sid
                      = Some (st\<lparr>st_completed := False, st_updated_at := n1\<rparr>)
                  \<and> (\<forall>sid'. sid' \<noteq> sid \<longrightarrow>
                        find_subtask (t_subtasks task1) sid'
                          = find_subtask (t_subtasks task) sid'))
            \<and> undo_subtask (fst (undo_subtask S tid sid n1)) tid sid n2
                = undo_subtask S tid sid n2)"
proof -
  have c1: "complete_task S tid
           = (AList.update tid (task\<lparr>t_completed := True\<rparr>) S, Inr (task\<lparr>t_completed := True\<rparr>))"
    using assms by (simp add: complete_task_def get_task_or_404_def Let_def)
  have c2: "map_of (fst (complete_task S tid)) tid = Some (task\<lparr>t_completed := True\<rparr>)"
    by (simp add: c1 update_conv')
  have c3: "complete_task (fst (complete_task S tid)) tid = complete_task S tid"
  proof -
    have "complete_task (AList.update tid (task\<lparr>t_completed := True\<rparr>) S) tid
        = (AList.update tid (task\<lparr>t_completed := True\<rparr>) S, Inr (task\<lparr>t_completed := True\<rparr>))"
      by (simp add: complete_task_def get_task_or_404_def Let_def update_conv')
    then show ?thesis by (simp only: c1 fst_conv)
  qed
  have u1: "undo_task S tid
           = (AList.update tid (task\<lparr>t_completed := False\<rparr>) S,
              Inr (task\<lparr>t_completed := False\<rparr>))"
    using assms by (simp add: undo_task_def get_task_or_404_def Let_def)
  have u2: "map_of (fst (undo_task S tid)) tid = Some (task\<lparr>t_completed := False\<rparr>)"
    by (simp add: u1 update_conv')
  have u3: "undo_task (fst (undo_task S tid)) tid = undo_task S tid"
  proof -
    have "undo_task (AList.update tid (task\<lparr>t_completed := False\<rparr>) S) tid
        = (AList.update tid (task\<lparr>t_completed := False\<rparr>) S,
           Inr (task\<lparr>t_completed := False\<rparr>))"
      by (simp add: undo_task_def get_task_or_404_def Let_def update_conv')
    then show ?thesis by (simp only: u1 fst_conv)
  qed
  have s: "complete_subtask S tid sid n1
              = (AList.update tid
                   (task\<lparr>t_subtasks := put_subtask (t_subtasks task) sid
                            (st\<lparr>st_completed := True, st_updated_at := n1\<rparr>)\<rparr>) S,
                 Inr (st\<lparr>st_completed := True, st_updated_at := n1\<rparr>))
            \<and> (\<exists>task1. map_of (fst (complete_subtask S tid sid n1)) tid = Some task1
                  \<and> task1 = task\<lparr>t_subtasks := t_subtasks task1\<rparr>
                  \<and> find_subtask (t_subtasks task1) sid
                      = Some (st\<lparr>st_completed := True, st_updated_at := n1\<rparr>)
                  \<and> (\<forall>sid'. sid' \<noteq> sid \<longrightarrow>
                        find_subtask (t_subtasks task1) sid'
                          = find_subtask (t_subtasks task) sid'))
            \<and> complete_subtask (fst (complete_subtask S tid sid n1)) tid sid n2
                = complete_subtask S tid sid n2
            \<and> undo_subtask S tid sid n1
              = (AList.update tid
                   (task\<lparr>t_subtasks := put_subtask (t_subtasks task) sid
                            (st\<lparr>st_completed := False, st_updated_at := n1\<rparr>)\<rparr>) S,
                 Inr (st\<lparr>st_completed := False, st_updated_at := n1\<rparr>))
            \<and> (\<exists>task1. map_of (fst (undo_subtask S tid sid n1)) tid = Some task1
                  \<and> task1 = task\<lparr>t_subtasks := t_subtasks task1\<rparr>
                  \<and> find_subtask (t_subtasks task1) sid
                      = Some (st\<lparr>st_completed := False, st_updated_at := n1\<rparr>)
                  \<and> (\<forall>sid'. sid' \<noteq> sid \<longrightarrow>
                        find_subtask (t_subtasks task1) sid'
                          = find_subtask (t_subtasks task) sid'))
            \<and> undo_subtask (fst (undo_subtask S tid sid n1)) tid sid n2
                = undo_subtask S tid sid n2"
    if st: "find_subtask (t_subtasks task) sid = Some st"
  proof -
    from st have sid: "st_id st = sid" by (simp add: find_subtask_SomeD)
    let ?c = "\<lambda>n. st\<lparr>st_completed := True, st_updated_at := n\<rparr>"
    let ?u = "\<lambda>n. st\<lparr>st_completed := False, st_updated_at := n\<rparr>"
    let ?tc = "\<lambda>n. task\<lparr>t_subtasks := put_subtask (t_subtasks task) sid (?c n)\<rparr>"
    let ?tu = "\<lambda>n. task\<lparr>t_subtasks := put_subtask (t_subtasks task) sid (?u n)\<rparr>"
    have pc: "complete_subtask S tid sid n = (AList.update tid (?tc n) S, Inr (?c n))" for n
      by (rule complete_subtask_present [OF assms st])
    have pu: "undo_subtask S tid sid n = (AList.update tid (?tu n) S, Inr (?u n))" for n
      by (rule undo_subtask_present [OF assms st])
    have lc: "map_of (AList.update tid (?tc n1) S) tid = Some (?tc n1)"
      and lu: "map_of (AList.update tid (?tu n1) S) tid = Some (?tu n1)"
      by (simp_all add: update_conv')
    have fc: "find_subtask (t_subtasks (?tc n1)) sid = Some (?c n1)"
      and fu: "find_subtask (t_subtasks (?tu n1)) sid = Some (?u n1)"
      using st sid by (simp_all add: find_put_subtask)
    have oc: "\<forall>sid'. sid' \<noteq> sid \<longrightarrow>
        find_subtask (t_subtasks (?tc n1)) sid' = find_subtask (t_subtasks task) sid'"
      and ou: "\<forall>sid'. sid' \<noteq> sid \<longrightarrow>
        find_subtask (t_subtasks (?tu n1)) sid' = find_subtask (t_subtasks task) sid'"
      using sid by (simp_all add: find_put_subtask_other)
    have 2: "complete_subtask (fst (complete_subtask S tid sid n1)) tid sid n2
        = complete_subtask S tid sid n2"
      using sid
      by (simp add: pc complete_subtask_present [OF lc fc] put_put_subtask)
    have 4: "undo_subtask (fst (undo_subtask S tid sid n1)) tid sid n2
        = undo_subtask S tid sid n2"
      using sid
      by (simp add: pu undo_subtask_present [OF lu fu] put_put_subtask)
    have 1: "\<exists>task1. map_of (fst (complete_subtask S tid sid n1)) tid = Some task1
                  \<and> task1 = task\<lparr>t_subtasks := t_subtasks task1\<rparr>
                  \<and> find_subtask (t_subtasks task1) sid = Some (?c n1)
                  \<and> (\<forall>sid'. sid' \<noteq> sid \<longrightarrow>
                        find_subtask (t_subtasks task1) sid'
                          = find_subtask (t_subtasks task) sid')"
      apply (rule exI [of _ "?tc n1"])
      using lc fc oc apply (simp add: pc)
      done
    have 3: "\<exists>task1. map_of (fst (undo_subtask S tid sid n1)) tid = Some task1
                  \<and> task1 = task\<lparr>t_subtasks := t_subtasks task1\<rparr>
                  \<and> find_subtask (t_subtasks task1) sid = Some (?u n1)
                  \<and> (\<forall>sid'. sid' \<noteq> sid \<longrightarrow>
                        find_subtask (t_subtasks task1) sid'
                          = find_subtask (t_subtasks task) sid')"
      apply (rule exI [of _ "?tu n1"])
      using lu fu ou apply (simp add: pu)
      done
    from pc [of n1] pu [of n1] 1 2 3 4 show ?thesis by blast
  qed
  from c1 c2 c3 u1 u2 u3 s show ?thesis by blast
qed

theorem complete_undo_idempotent_witness:
  "map_of sample_store 1 = Some sample_task
   \<and> find_subtask (t_subtasks sample_task) 12 = Some plain_subtask
   \<and> map_of (fst (complete_task sample_store 1)) 1 = Some (sample_task\<lparr>t_completed := True\<rparr>)
   \<and> complete_task (fst (complete_task sample_store 1)) 1 = complete_task sample_store 1
   \<and> snd (complete_subtask sample_store 1 12 (Naive 100))
       = Inr (plain_subtask\<lparr>st_completed := True, st_updated_at := Naive 100\<rparr>)
   \<and> (\<exists>task1. map_of (fst (complete_subtask sample_store 1 12 (Naive 100))) 1 = Some task1
         \<and> find_subtask (t_subtasks task1) 12
             = Some (plain_subtask\<lparr>st_completed := True, st_updated_at := Naive 100\<rparr>)
         \<and> find_subtask (t_subtasks task1) 11 = Some sample_subtask)
   \<and> complete_subtask (fst (complete_subtask sample_store 1 12 (Naive 100))) 1 12 (Naive 200)
       = complete_subtask sample_store 1 12 (Naive 200)"
proof -
  have h: "map_of sample_store 1 = Some sample_task"
    by (simp add: sample_store_def)
  have s: "find_subtask (t_subtasks sample_task) 12 = Some plain_subtask"
    by (simp add: sample_task_def sample_subtask_def plain_subtask_def)
  have o: "find_subtask (t_subtasks sample_task) 11 = Some sample_subtask"
    by (simp add: sample_task_def sample_subtask_def)
  note t = complete_undo_idempotent [OF h, of 12 plain_subtask "Naive 100" "Naive 200"]
  have 1: "snd (complete_subtask sample_store 1 12 (Naive 100))
       = Inr (plain_subtask\<lparr>st_completed := True, st_updated_at := Naive 100\<rparr>)"
    using t s by simp
  have 2: "\<exists>task1. map_of (fst (complete_subtask sample_store 1 12 (Naive 100))) 1 = Some task1
         \<and> find_subtask (t_subtasks task1) 12
             = Some (plain_subtask\<lparr>st_completed := True, st_updated_at := Naive 100\<rparr>)
         \<and> find_subtask (t_subtasks task1) 11 = Some sample_subtask"
  proof -
    from t s obtain task1 where
      "map_of (fst (complete_subtask sample_store 1 12 (Naive 100))) 1 = Some task1"
      "find_subtask (t_subtasks task1) 12
         = Some (plain_subtask\<lparr>st_completed := True, st_updated_at := Naive 100\<rparr>)"
      "\<forall>sid'. sid' \<noteq> 12 \<longrightarrow>
         find_subtask (t_subtasks task1) sid' = find_subtask (t_subtasks sample_task) sid'"
      by blast
    with o show ?thesis by auto
  qed
  from h s t 1 2 show ?thesis by blast
qed

section \<open>Listing tasks\<close>

text \<open>
  C3, as the claim states it, fails for the filters \<open>due_from\<close> after \<open>due_to\<close>: a task
  without a due date satisfies every predicate of such a query, yet List Tasks raises the
  error of the range check and returns no list.
\<close>

theorem list_tasks_inverted_range_counterexample:
  "listed sample_platform sample_now None None (Some (Aware 2 0)) (Some (Aware 1 0)) undated_task
   \<and> map_of sample_store 2 = Some undated_task
   \<and> list_tasks sample_platform sample_clock sample_store None None
        (Some (Aware 2 0)) (Some (Aware 1 0))
       = (sample_store, Inl (ValueError ''due_from must be <= due_to''))"
  by (simp add: listed_def matches_query_def in_due_range_def matches_list_filter_def
      undated_task_def list_tasks_def check_range_def datetime_gt_def datetime_lt_def
      sample_store_def)

text \<open>
  C3, amended. Whenever List Tasks returns a list, the store is as it was, \<open>due_from\<close> is
  not after \<open>due_to\<close>, and the list holds exactly the tasks of the store that satisfy the
  query predicate, the due-range predicate and the named filter, the filter judged at the
  clock reading taken while the task was examined, each task as often as the store holds
  it, in ascending order of due date with the tasks without due date last, and tasks with
  the same sort key in the order of the store. List Tasks does return a list for every
  store and every combination of filters in which \<open>due_from\<close> is not after \<open>due_to\<close> when
  both are supplied, the bounds supplied and the due dates stored are all of one kind (all
  with a UTC offset, or all without), and, under the filters \<open>today\<close> and \<open>upcoming\<close>,
  every due date stored converts into Asia/Colombo. With a clock that shows one reading
  throughout, the tasks kept are those that satisfy the three predicates at that reading.
  Tasks due 2024-03-01, never and 2024-01-01, stored in that order, are listed as
  2024-01-01, 2024-03-01, never.
\<close>

theorem list_tasks_filtered_sorted:
  "(list_tasks pf clock S lf q df dt = (S', Inr ys) \<longrightarrow>
      S' = S
      \<and> \<not> (\<exists>f t. df = Some f \<and> dt = Some t \<and> instant t < instant f)
      \<and> mset ys = mset (kept_tasks pf clock lf q df dt S)
      \<and> sorted_wrt (\<lambda>a b. due_le (t_due_datetime a) (t_due_datetime b)) ys
      \<and> (\<forall>k. filter (\<lambda>t. task_sort_key t = k) ys
             = filter (\<lambda>t. task_sort_key t = k) (kept_tasks pf clock lf q df dt S)))
   \<and> ((\<forall>a \<in> set (compared_datetimes S df dt). \<forall>b \<in> set (compared_datetimes S df dt).
          is_aware a = is_aware b)
       \<and> \<not> (\<exists>f t. df = Some f \<and> dt = Some t \<and> instant t < instant f)
       \<and> (lf = Some filter_today \<or> lf = Some filter_upcoming \<longrightarrow>
            (\<forall>(k, task) \<in> set S. \<forall>d. t_due_datetime task = Some d \<longrightarrow>
               (\<exists>day. colombo_date pf d = Inr day))) \<longrightarrow>
       (\<exists>zs. list_tasks pf clock S lf q df dt = (S, Inr zs)))
   \<and> kept_tasks pf clock lf q df dt S
       = map snd (filter (\<lambda>(i, task). matches_query pf task q
                            \<and> in_due_range task df dt = Inr True
                            \<and> matches_list_filter pf (clock i) task lf = Inr True)
                    (enumerate 0 (map snd S)))
   \<and> ((\<forall>i. clock i = now) \<longrightarrow>
        kept_tasks pf clock lf q df dt S = filter (listed pf now lf q df dt) (map snd S))
   \<and> (t_due_datetime a = Some (Aware 1709251200000000 0) \<and> t_due_datetime b = None
        \<and> t_due_datetime c = Some (Aware 1704067200000000 0) \<longrightarrow>
      list_tasks pf clock [(ka, a), (kb, b), (kc, c)] None None None None
        = ([(ka, a), (kb, b), (kc, c)], Inr [c, a, b]))"
proof (intro conjI impI)
  assume h: "list_tasks pf clock S lf q df dt = (S', Inr ys)"
  note l = list_tasks_Inr [OF h]
  note s = sort_tasks_Inr [OF l(3)]
  show "S' = S" by (rule l(1))
  show "\<not> (\<exists>f t. df = Some f \<and> dt = Some t \<and> instant t < instant f)" by (rule l(2))
  show "mset ys = mset (kept_tasks pf clock lf q df dt S)" by (simp add: s(1))
  show "sorted_wrt (\<lambda>a b. due_le (t_due_datetime a) (t_due_datetime b)) ys" by (rule s(2))
  show "\<forall>k. filter (\<lambda>t. task_sort_key t = k) ys
             = filter (\<lambda>t. task_sort_key t = k) (kept_tasks pf clock lf q df dt S)"
    by (simp add: s(1) sort_key_stable)
next
  assume "(\<forall>a \<in> set (compared_datetimes S df dt). \<forall>b \<in> set (compared_datetimes S df dt).
          is_aware a = is_aware b)
       \<and> \<not> (\<exists>f t. df = Some f \<and> dt = Some t \<and> instant t < instant f)
       \<and> (lf = Some filter_today \<or> lf = Some filter_upcoming \<longrightarrow>
            (\<forall>(k, task) \<in> set S. \<forall>d. t_due_datetime task = Some d \<longrightarrow>
               (\<exists>day. colombo_date pf d = Inr day)))"
  then show "\<exists>zs. list_tasks pf clock S lf q df dt = (S, Inr zs)"
    by (intro list_tasks_defined) blast+
next
  show "kept_tasks pf clock lf q df dt S
       = map snd (filter (\<lambda>(i, task). matches_query pf task q
                            \<and> in_due_range task df dt = Inr True
                            \<and> matches_list_filter pf (clock i) task lf = Inr True)
                    (enumerate 0 (map snd S)))"
    by (simp add: kept_tasks_def listed_def)
next
  assume "\<forall>i. clock i = now"
  then show "kept_tasks pf clock lf q df dt S = filter (listed pf now lf q df dt) (map snd S)"
    by (simp add: kept_tasks_def filter_enumerate_const)
next
  assume "t_due_datetime a = Some (Aware 1709251200000000 0) \<and> t_due_datetime b = None
        \<and> t_due_datetime c = Some (Aware 1704067200000000 0)"
  then show "list_tasks pf clock [(ka, a), (kb, b), (kc, c)] None None None None
        = ([(ka, a), (kb, b), (kc, c)], Inr [c, a, b])"
    by (simp add: list_tasks_def check_range_def matches_query_def in_due_range_def
        matches_list_filter_def sort_tasks_def same_kind_def task_sort_key_def)
qed

theorem list_tasks_filtered_sorted_witness:
  "list_tasks sample_platform sample_clock sample_store None None
       (Some (Aware 1704067200000000 0)) (Some (Aware 1709251200000000 0))
     = (sample_store, Inr [early_task, sample_task, undated_task])
   \<and> mset [early_task, sample_task, undated_task]
       = mset (kept_tasks sample_platform sample_clock None None
                 (Some (Aware 1704067200000000 0)) (Some (Aware 1709251200000000 0))
                 sample_store)
   \<and> sorted_wrt (\<lambda>a b. due_le (t_due_datetime a) (t_due_datetime b))
        [early_task, sample_task, undated_task]
   \<and> kept_tasks sample_platform sample_clock (Some filter_upcoming) None
        (Some (Aware 1704067200000000 0)) (Some (Aware 1709251200000000 0)) sample_store
       = filter (listed sample_platform sample_now (Some filter_upcoming) None
                   (Some (Aware 1704067200000000 0)) (Some (Aware 1709251200000000 0)))
           (map snd sample_store)
   \<and> (\<exists>zs. list_tasks sample_platform sample_clock sample_store (Some filter_upcoming) None
              (Some (Aware 1704067200000000 0)) (Some (Aware 1709251200000000 0))
            = (sample_store, Inr zs))
   \<and> list_tasks sample_platform sample_clock sample_store None None None None
       = (sample_store, Inr [early_task, sample_task, undated_task])"
proof -
  have d: "t_due_datetime sample_task = Some (Aware 1709251200000000 0)"
    "t_due_datetime undated_task = None"
    "t_due_datetime early_task = Some (Aware 1704067200000000 0)"
    by (simp_all add: sample_task_def undated_task_def early_task_def)
  have e: "list_tasks sample_platform sample_clock sample_store None None
       (Some (Aware 1704067200000000 0)) (Some (Aware 1709251200000000 0))
     = (sample_store, Inr [early_task, sample_task, undated_task])"
    by (simp add: list_tasks_def check_range_def datetime_gt_def datetime_lt_def
        sample_store_def matches_query_def in_due_range_def matches_list_filter_def d
        sort_tasks_def same_kind_def task_sort_key_def)
  have k: "\<forall>a \<in> set (compared_datetimes sample_store
        (Some (Aware 1704067200000000 0)) (Some (Aware 1709251200000000 0))).
      \<forall>b \<in> set (compared_datetimes sample_store
        (Some (Aware 1704067200000000 0)) (Some (Aware 1709251200000000 0))).
      is_aware a = is_aware b"
    by (simp add: compared_datetimes_def sample_store_def d)
  have r: "\<not> (\<exists>f t. Some (Aware 1704067200000000 0) = Some f
      \<and> Some (Aware 1709251200000000 0) = Some t \<and> instant t < instant f)"
    by simp
  have c: "\<forall>(k, task) \<in> set sample_store. \<forall>d. t_due_datetime task = Some d \<longrightarrow>
      (\<exists>day. colombo_date sample_platform d = Inr day)"
    by (simp add: sample_store_def d colombo_date_def astimezone_colombo_def to_utc_def
        in_range_def datetime_min_def datetime_max_def sample_platform_def)
  have n: "\<forall>i. sample_clock i = sample_now"
    by (simp add: sample_clock_def)
  note t = list_tasks_filtered_sorted [where pf = sample_platform and clock = sample_clock
      and S = sample_store and q = None and df = "Some (Aware 1704067200000000 0)"
      and dt = "Some (Aware 1709251200000000 0)"]
  note t1 = t [where lf = None and S' = sample_store
      and ys = "[early_task, sample_task, undated_task]", THEN conjunct1, rule_format, OF e]
  have 1: "mset [early_task, sample_task, undated_task]
       = mset (kept_tasks sample_platform sample_clock None None
                 (Some (Aware 1704067200000000 0)) (Some (Aware 1709251200000000 0))
                 sample_store)"
    and 2: "sorted_wrt (\<lambda>a b. due_le (t_due_datetime a) (t_due_datetime b))
        [early_task, sample_task, undated_task]"
    using t1 by blast+
  note t2 = t [where lf = "Some filter_upcoming" and now = sample_now,
      THEN conjunct2]
  have 3: "\<exists>zs. list_tasks sample_platform sample_clock sample_store (Some filter_upcoming) None
              (Some (Aware 1704067200000000 0)) (Some (Aware 1709251200000000 0))
            = (sample_store, Inr zs)"
    using t2 [THEN conjunct1] k r c by blast
  have 4: "kept_tasks sample_platform sample_clock (Some filter_upcoming) None
        (Some (Aware 1704067200000000 0)) (Some (Aware 1709251200000000 0)) sample_store
       = filter (listed sample_platform sample_now (Some filter_upcoming) None
                   (Some (Aware 1704067200000000 0)) (Some (Aware 1709251200000000 0)))
           (map snd sample_store)"
    using t2 [THEN conjunct2, THEN conjunct2, THEN conjunct1] n by blast
  have 5: "list_tasks sample_platform sample_clock sample_store None None None None
       = (sample_store, Inr [early_task, sample_task, undated_task])"
    using d list_tasks_filtered_sorted [where a = sample_task and b = undated_task
        and c = early_task and pf = sample_platform and clock = sample_clock and ka = 1
        and kb = 2 and kc = 3, THEN conjunct2, THEN conjunct2, THEN conjunct2, THEN conjunct2]
    by (simp add: sample_store_def)
  from e 1 2 3 4 5 show ?thesis by blast
qed

end
